theory Spec2Isabelle
  imports Complex_Main "HOL-Library.Word" "HOL-Library.AList"
begin

unbundle bit_operations_syntax

chapter \<open>Definitions: the program\<close>

section \<open>Transport: transaction ids (NetworkTransport.py)\<close>

text \<open>
  \<^verbatim>\<open>NFSTransportProtocol\<close> keeps a connection-scoped counter \<^verbatim>\<open>_xid_counter\<close>, set to 0 by
  the constructor. Python integers are unbounded, so the counter is an \<open>int\<close>, and \<^verbatim>\<open>%\<close>
  with a positive modulus is \<open>mod\<close> on \<open>int\<close>.
\<close>

record transport =
  xid_counter :: int

definition new_transport :: transport where
  "new_transport = \<lparr>xid_counter = 0\<rparr>"

text \<open>
  \<^verbatim>\<open>_get_next_xid\<close>: the counter becomes \<^verbatim>\<open>(counter + 1) % 0xFFFFFFFF\<close> and the new value is
  returned.
\<close>

definition get_next_xid :: "transport \<Rightarrow> int \<times> transport" where
  "get_next_xid s =
     (let s' = s\<lparr>xid_counter := (xid_counter s + 1) mod 0xFFFFFFFF\<rparr>
      in (xid_counter s', s'))"

text \<open>The ids returned by \<open>n\<close> successive calls of \<^verbatim>\<open>_get_next_xid\<close> on one connection.\<close>

fun issue_xids :: "nat \<Rightarrow> transport \<Rightarrow> int list" where
  "issue_xids 0 s = []"
| "issue_xids (Suc n) s = (case get_next_xid s of (x, s') \<Rightarrow> x # issue_xids n s')"

section \<open>Transport: inbound reassembly (NetworkTransport.py)\<close>

type_synonym byte = "8 word"

text \<open>
  \<^verbatim>\<open>struct.unpack("!I", b)[0]\<close> for four bytes \<open>b\<close>: the big-endian unsigned value. In
  \<^verbatim>\<open>data_received\<close> it is applied to \<^verbatim>\<open>self._buffer[:4]\<close> under the loop condition
  \<^verbatim>\<open>len(self._buffer) >= 4\<close>, so the slice has four bytes.
\<close>

definition unpack_I :: "byte list \<Rightarrow> nat" where
  "unpack_I b = foldl (\<lambda>acc x. acc * 256 + unat x) 0 b"

text \<open>
  \<^verbatim>\<open>NFSProtocolHandler\<close>: the bytes received and not yet consumed, the length read from a
  frame's prefix while its payload is awaited (\<^verbatim>\<open>None\<close> between frames), and, to observe
  the deliveries, the messages handed to \<^verbatim>\<open>_process_message\<close> so far, in order.
\<close>

record NFSProtocolHandler =
  buffer :: "byte list"
  expected_length :: "nat option"
  processed :: "byte list list"

definition new_NFSProtocolHandler :: NFSProtocolHandler where
  "new_NFSProtocolHandler = \<lparr>buffer = [], expected_length = None, processed = []\<rparr>"

text \<open>
  The loop \<^verbatim>\<open>while len(self._buffer) >= 4\<close> of \<^verbatim>\<open>data_received\<close>. An iteration reads the
  length prefix if none is pending, then delivers the frame if the buffer holds all of
  it; if it does not, the iteration changes nothing more and the condition is tested
  again. The loop need not end, so its result is an option: \<open>None\<close> when it runs for ever.
\<close>

partial_function (option) receive_loop :: "NFSProtocolHandler \<Rightarrow> NFSProtocolHandler option" where
  "receive_loop self =
     (if length (buffer self) \<ge> 4 then
        (let self1 = (case expected_length self of
                        None \<Rightarrow> self\<lparr>expected_length := Some (unpack_I (take 4 (buffer self))),
                                      buffer := drop 4 (buffer self)\<rparr>
                      | Some n \<Rightarrow> self)
         in case expected_length self1 of
              None \<Rightarrow> receive_loop self1
            | Some n \<Rightarrow>
                if length (buffer self1) \<ge> n then
                  receive_loop
                    (self1\<lparr>buffer := drop n (buffer self1),
                           processed := processed self1 @ [take n (buffer self1)],
                           expected_length := None\<rparr>)
                else receive_loop self1)
      else Some self)"

text \<open>\<^verbatim>\<open>data_received\<close>: the chunk is appended to the buffer and the loop runs.\<close>

definition data_received :: "NFSProtocolHandler \<Rightarrow> byte list \<Rightarrow> NFSProtocolHandler option" where
  "data_received self chunk = receive_loop (self\<lparr>buffer := buffer self @ chunk\<rparr>)"

section \<open>Resilience layer: exceptions and the event loop (ErrorRecovery.py)\<close>

text \<open>
  The Python exceptions the resilience layer raises or catches, each with its message
  (\<^verbatim>\<open>str(e)\<close>). \<^verbatim>\<open>NFSTransportError\<close> is the class of NetworkTransport.py;
  \<^verbatim>\<open>ConnectionError\<close>, \<^verbatim>\<open>ValueError\<close>, \<^verbatim>\<open>IndexError\<close> and \<^verbatim>\<open>KeyError\<close> are built in;
  \<open>OtherException\<close> stands for any exception of another class.
\<close>

datatype exn =
    NFSTransportError string
  | NFSStateError string
  | ConnectionError string
  | ValueError string
  | IndexError string
  | KeyError string
  | OtherException string

fun str :: "exn \<Rightarrow> string" where
  "str (NFSTransportError msg) = msg"
| "str (NFSStateError msg) = msg"
| "str (ConnectionError msg) = msg"
| "str (ValueError msg) = msg"
| "str (IndexError msg) = msg"
| "str (KeyError msg) = msg"
| "str (OtherException msg) = msg"

text \<open>
  Modelled from the spec: the class \<^verbatim>\<open>NFSStateError\<close> is named by the handler
  \<^verbatim>\<open>except (NFSTransportError, NFSStateError)\<close> of \<^verbatim>\<open>execute_with_recovery\<close> but declared
  nowhere in the repository (and ErrorRecovery.py imports neither class). The spec calls
  the failures caught there transient: "transport/connection-state errors"; everything
  else is non-transient. \<open>is_transient e\<close> is the test that this handler matches \<open>e\<close>.
\<close>

fun is_transient :: "exn \<Rightarrow> bool" where
  "is_transient (NFSTransportError _) = True"
| "is_transient (NFSStateError _) = True"
| "is_transient _ = False"

text \<open>
  What the code observes of the event loop: the clock read by \<^verbatim>\<open>datetime.now()\<close>, in
  seconds, and, in order, the awaits the retry engine makes: invoking the operation (for
  the attempt of that number) and \<^verbatim>\<open>asyncio.sleep(delay)\<close>. Delays are Python floats; they
  are modelled as exact reals, without rounding and without \<^verbatim>\<open>OverflowError\<close>. A sleep
  moves the clock by its delay (by nothing when the delay is negative), an invocation of
  the operation is taken to be instantaneous.
\<close>

datatype event = Invoked nat | Slept real

record env =
  now :: real
  events :: "event list"

definition sleep :: "real \<Rightarrow> env \<Rightarrow> env" where
  "sleep delay w = w\<lparr>now := now w + max 0 delay, events := events w @ [Slept delay]\<rparr>"

definition invoke :: "nat \<Rightarrow> env \<Rightarrow> env" where
  "invoke attempt w = w\<lparr>events := events w @ [Invoked attempt]\<rparr>"

section \<open>Resilience layer: retry engine (ErrorRecovery.py)\<close>

record RetryConfig =
  max_retries :: int
  base_delay :: real
  max_delay :: real
  exponential_base :: real

record OperationMetrics =
  start_time :: real
  end_time :: "real option"
  retries :: int
  success :: bool
  error :: "string option"

record ErrorRecoveryManager =
  retry_config :: RetryConfig
  operation_metrics :: "string \<rightharpoonup> OperationMetrics"

text \<open>
  How a call of \<^verbatim>\<open>execute_with_recovery\<close> ends: it returns the operation's result, it
  falls off the end of the function body (Python then returns \<^verbatim>\<open>None\<close>), or an exception
  leaves it.
\<close>

datatype 'a outcome = Return 'a | Return_None | Raise exn

text \<open>Python's \<^verbatim>\<open>range(n)\<close>: the numbers from 0 below \<open>n\<close>, none when \<open>n \<le> 0\<close>.\<close>

definition range_py :: "int \<Rightarrow> nat list" where
  "range_py n = [0..<nat n]"

text \<open>
  The body of \<^verbatim>\<open>for attempt in range(max_retries)\<close>, over the attempts still to make.
  The operation is an awaitable with effects of its own; \<open>operation k\<close> is what its
  invocation in attempt \<open>k\<close> does: \<open>Inr result\<close> when it returns, \<open>Inl e\<close> when it raises.
  Each iteration invokes it once. A transient failure counts a retry; on the last attempt
  (\<^verbatim>\<open>attempt == max_retries - 1\<close>) it records \<^verbatim>\<open>str(e)\<close> and re-raises, otherwise it sleeps
  \<^verbatim>\<open>min(base_delay * exponential_base ** attempt, max_delay)\<close> and goes on. Any other
  exception leaves the loop at once.
\<close>

fun attempts ::
  "RetryConfig \<Rightarrow> (nat \<Rightarrow> exn + 'a) \<Rightarrow> nat list \<Rightarrow> OperationMetrics \<times> env \<Rightarrow>
     'a outcome \<times> OperationMetrics \<times> env" where
  "attempts cfg operation [] (metrics, w) = (Return_None, metrics, w)"
| "attempts cfg operation (attempt # rest) (metrics, w) =
     (case operation attempt of
        Inr result \<Rightarrow> (Return result, metrics\<lparr>success := True\<rparr>, invoke attempt w)
      | Inl e \<Rightarrow>
          if is_transient e then
            (let metrics1 = metrics\<lparr>retries := retries metrics + 1\<rparr> in
             if int attempt = max_retries cfg - 1
             then (Raise e, metrics1\<lparr>error := Some (str e)\<rparr>, invoke attempt w)
             else
               (let delay = min (base_delay cfg * exponential_base cfg ^ attempt) (max_delay cfg)
                in attempts cfg operation rest (metrics1, sleep delay (invoke attempt w))))
          else (Raise e, metrics, invoke attempt w))"

text \<open>
  \<^verbatim>\<open>execute_with_recovery\<close>: a fresh metrics object is stored under the operation id, the
  loop runs, and the \<^verbatim>\<open>finally\<close> clause stamps \<^verbatim>\<open>end_time\<close> on every way out. The metrics
  object is mutated in place, so the dictionary entry ends as the final metrics.
\<close>

definition execute_with_recovery ::
  "ErrorRecoveryManager \<Rightarrow> string \<Rightarrow> (nat \<Rightarrow> exn + 'a) \<Rightarrow> env \<Rightarrow>
     'a outcome \<times> ErrorRecoveryManager \<times> env" where
  "execute_with_recovery self operation_id operation w =
     (let metrics = \<lparr>start_time = now w, end_time = None, retries = 0, success = False,
                     error = None\<rparr>
      in case attempts (retry_config self) operation
                (range_py (max_retries (retry_config self))) (metrics, w) of
           (r, metrics', w') \<Rightarrow>
             (r,
              self\<lparr>operation_metrics :=
                     (operation_metrics self)(operation_id \<mapsto> metrics'\<lparr>end_time := Some (now w')\<rparr>)\<rparr>,
              w'))"




section \<open>Resilience layer: the TTL cache (ErrorRecovery.py)\<close>


record 'v LRUCache =
  capacity :: int
  cache :: "string \<rightharpoonup> 'v"
  usage :: "string list"

definition new_LRUCache :: "int \<Rightarrow> 'v LRUCache" where
  "new_LRUCache n = \<lparr>capacity = n, cache = Map.empty, usage = []\<rparr>"

text \<open>
  \<^verbatim>\<open>LRUCache.get\<close>: a present key moves to the end of the recency list and its value is
  returned; an absent key gives \<^verbatim>\<open>None\<close>. \<^verbatim>\<open>list.remove\<close> raises \<^verbatim>\<open>ValueError\<close> when the
  key is not in the list.
\<close>

definition get :: "'v LRUCache \<Rightarrow> string \<Rightarrow> exn + ('v option \<times> 'v LRUCache)" where
  "get self key =
     (if key \<in> dom (cache self) then
        (if key \<in> set (usage self)
         then Inr (cache self key, self\<lparr>usage := remove1 key (usage self) @ [key]\<rparr>)
         else Inl (ValueError ''list.remove(x): x not in list''))
      else Inr (None, self))"

text \<open>
  \<^verbatim>\<open>LRUCache.__setitem__\<close>: a present key is taken out of the recency list; otherwise, when
  the dictionary holds \<^verbatim>\<open>capacity\<close> entries or more, the head of the recency list is popped
  (\<^verbatim>\<open>IndexError\<close> on an empty list) and deleted from the dictionary (\<^verbatim>\<open>KeyError\<close> when it is
  not there). Then the value is stored and the key appended to the recency list.
\<close>

definition setitem :: "'v LRUCache \<Rightarrow> string \<Rightarrow> 'v \<Rightarrow> exn + 'v LRUCache" where
  "setitem self key val =
     (if key \<in> dom (cache self) then
        (if key \<in> set (usage self)
         then Inr (self\<lparr>cache := (cache self)(key \<mapsto> val),
                        usage := remove1 key (usage self) @ [key]\<rparr>)
         else Inl (ValueError ''list.remove(x): x not in list''))
      else if int (card (dom (cache self))) \<ge> capacity self then
        (case usage self of
           [] \<Rightarrow> Inl (IndexError ''pop from empty list'')
         | oldest # rest \<Rightarrow>
             if oldest \<in> dom (cache self)
             then Inr (self\<lparr>cache := ((cache self)(oldest := None))(key \<mapsto> val),
                            usage := rest @ [key]\<rparr>)
             else Inl (KeyError oldest))
      else Inr (self\<lparr>cache := (cache self)(key \<mapsto> val), usage := usage self @ [key]\<rparr>))"




text \<open>
  The recency list and the dictionary hold the same keys, each once in the list. This
  holds of a new cache and is kept by \<^verbatim>\<open>get\<close> and \<^verbatim>\<open>__setitem__\<close>.
\<close>

definition lru_inv :: "'v LRUCache \<Rightarrow> bool" where
  "lru_inv self = (distinct (usage self) \<and> set (usage self) = dom (cache self))"

section \<open>Resilience layer: the connection pool (ErrorRecovery.py)\<close>

text \<open>
  A connection is the dictionary \<^verbatim>\<open>{'server_id': server_id, 'connected': True}\<close> that
  \<^verbatim>\<open>_create_connection\<close> builds. \<^verbatim>\<open>_release_connection\<close> finds it by object identity
  (\<^verbatim>\<open>is\<close>), so each one carries the number of its allocation, \<open>conn_ref\<close>; the manager
  counts the allocations in \<open>allocated\<close>. \<^verbatim>\<open>_close_connection\<close> is a placeholder that does
  nothing; its calls are logged in \<open>close_calls\<close> so that they can be observed.

  The pool of a server is a dictionary from \<^verbatim>\<open>f"conn_{n}"\<close> to the connection's record,
  iterated in insertion order: an association list, with the number \<open>n\<close> for the key
  \<^verbatim>\<open>conn_n\<close>. Assignment to a key is \<open>AList.update\<close>: in place for a key that is there, at
  the end for a new one.
\<close>

record conn =
  conn_ref :: nat
  server_id :: string
  is_connected :: bool

record conn_info =
  connection :: conn
  in_use :: bool
  created :: real
  last_used :: real

record ConnectionManager =
  pool_size :: int
  idle_timeout :: int
  active_connections :: "string \<rightharpoonup> (nat \<times> conn_info) list"
  allocated :: nat
  close_calls :: "conn list"

definition new_ConnectionManager :: "int \<Rightarrow> int \<Rightarrow> ConnectionManager" where
  "new_ConnectionManager psize timeout =
     \<lparr>pool_size = psize, idle_timeout = timeout, active_connections = Map.empty,
      allocated = 0, close_calls = []\<rparr>"

text \<open>
  \<^verbatim>\<open>_is_connection_expired\<close>, with the reading of \<^verbatim>\<open>datetime.now()\<close> as an argument: an idle
  connection has expired when it was last used more than \<^verbatim>\<open>idle_timeout\<close> seconds ago.
\<close>

definition is_connection_expired :: "int \<Rightarrow> real \<Rightarrow> conn_info \<Rightarrow> bool" where
  "is_connection_expired timeout t info =
     (if \<not> in_use info then t - last_used info > of_int timeout else False)"

text \<open>
  The loop \<^verbatim>\<open>for conn_id, conn_info in server_pool.items()\<close> of \<^verbatim>\<open>_acquire_connection\<close>. An
  idle connection that has expired is closed and the loop continues; its entry stays in
  the pool. The first idle connection that has not expired is marked in use, stamped and
  returned. The result is the connections closed on the way, the connection returned (if
  any) and the pool as the loop leaves it.
\<close>

fun find_available ::
  "int \<Rightarrow> real \<Rightarrow> (nat \<times> conn_info) list \<Rightarrow>
     conn list \<times> conn option \<times> (nat \<times> conn_info) list" where
  "find_available timeout t [] = ([], None, [])"
| "find_available timeout t ((conn_id, info) # rest) =
     (if \<not> in_use info then
        (if is_connection_expired timeout t info then
           (case find_available timeout t rest of
              (cl, found, rest') \<Rightarrow> (connection info # cl, found, (conn_id, info) # rest'))
         else ([], Some (connection info),
               (conn_id, info\<lparr>in_use := True, last_used := t\<rparr>) # rest))
      else
        (case find_available timeout t rest of
           (cl, found, rest') \<Rightarrow> (cl, found, (conn_id, info) # rest')))"

text \<open>
  \<^verbatim>\<open>_acquire_connection\<close>: after the loop, a new connection is created only if the pool
  holds fewer than \<^verbatim>\<open>pool_size\<close> entries, under the key \<^verbatim>\<open>conn_{len(server_pool)}\<close>; otherwise
  \<^verbatim>\<open>ConnectionError\<close> is raised.
\<close>

definition acquire_connection ::
  "ConnectionManager \<Rightarrow> real \<Rightarrow> string \<Rightarrow> exn + (conn \<times> ConnectionManager)" where
  "acquire_connection self t sid =
     (let server_pool = (case active_connections self sid of None \<Rightarrow> [] | Some p \<Rightarrow> p)
      in case find_available (idle_timeout self) t server_pool of
           (cl, Some c, pool') \<Rightarrow>
             Inr (c, self\<lparr>active_connections := (active_connections self)(sid \<mapsto> pool'),
                          close_calls := close_calls self @ cl\<rparr>)
         | (cl, None, pool') \<Rightarrow>
             if int (length server_pool) < pool_size self then
               (let c = \<lparr>conn_ref = allocated self, server_id = sid, is_connected = True\<rparr>;
                    conn_id = length server_pool;
                    info = \<lparr>connection = c, in_use = True, created = t, last_used = t\<rparr>
                in Inr (c, self\<lparr>active_connections :=
                                   (active_connections self)
                                     (sid \<mapsto> AList.update conn_id info server_pool),
                                 allocated := Suc (allocated self),
                                 close_calls := close_calls self @ cl\<rparr>))
             else Inl (ConnectionError ''Connection pool exhausted''))"

text \<open>
  \<^verbatim>\<open>_release_connection\<close>: the first entry holding this very connection is marked idle and
  stamped.
\<close>

fun release_in :: "real \<Rightarrow> conn \<Rightarrow> (nat \<times> conn_info) list \<Rightarrow> (nat \<times> conn_info) list" where
  "release_in t c [] = []"
| "release_in t c ((conn_id, info) # rest) =
     (if conn_ref (connection info) = conn_ref c
      then (conn_id, info\<lparr>in_use := False, last_used := t\<rparr>) # rest
      else (conn_id, info) # release_in t c rest)"

definition release_connection ::
  "ConnectionManager \<Rightarrow> real \<Rightarrow> string \<Rightarrow> conn \<Rightarrow> ConnectionManager" where
  "release_connection self t sid c =
     (case active_connections self sid of
        None \<Rightarrow> self
      | Some p \<Rightarrow> self\<lparr>active_connections := (active_connections self)(sid \<mapsto> release_in t c p)\<rparr>)"

section \<open>Codec: data and errors (XDR-Encode-Decode.py)\<close>

text \<open>
  \<^verbatim>\<open>bytes\<close> values are lists of bytes. A Python \<^verbatim>\<open>str\<close> is held as its UTF-8 encoding, which
  determines it: \<^verbatim>\<open>s.encode()\<close> is then the list of the bytes of \<open>s\<close>, and \<^verbatim>\<open>b.decode()\<close>
  succeeds exactly when \<open>b\<close> is well-formed UTF-8. A \<^verbatim>\<open>str\<close> with a lone surrogate has no
  encoding (\<^verbatim>\<open>encode\<close> raises on it) and is outside this type.
\<close>

type_synonym bytes = "byte list"
type_synonym str = string

definition utf8_encode :: "str \<Rightarrow> bytes" where
  "utf8_encode s = map (\<lambda>c. of_nat (of_char c)) s"

text \<open>
  Well-formed UTF-8, as the strict decoder of \<^verbatim>\<open>bytes.decode()\<close> accepts it: no overlong
  forms, no surrogates, nothing above \<open>U+10FFFF\<close>.
\<close>

definition is_cont :: "byte \<Rightarrow> bool" where
  "is_cont b = (0x80 \<le> b \<and> b \<le> 0xBF)"

fun valid_utf8 :: "bytes \<Rightarrow> bool" where
  "valid_utf8 [] = True"
| "valid_utf8 (b # bs) =
     (if b < 0x80 then valid_utf8 bs
      else if 0xC2 \<le> b \<and> b \<le> 0xDF then
        (case bs of c1 # r \<Rightarrow> is_cont c1 \<and> valid_utf8 r | _ \<Rightarrow> False)
      else if 0xE0 \<le> b \<and> b \<le> 0xEF then
        (case bs of
           c1 # c2 # r \<Rightarrow>
             (if b = 0xE0 then 0xA0 \<le> c1 \<and> c1 \<le> 0xBF
              else if b = 0xED then 0x80 \<le> c1 \<and> c1 \<le> 0x9F
              else is_cont c1) \<and>
             is_cont c2 \<and> valid_utf8 r
         | _ \<Rightarrow> False)
      else if 0xF0 \<le> b \<and> b \<le> 0xF4 then
        (case bs of
           c1 # c2 # c3 # r \<Rightarrow>
             (if b = 0xF0 then 0x90 \<le> c1 \<and> c1 \<le> 0xBF
              else if b = 0xF4 then 0x80 \<le> c1 \<and> c1 \<le> 0x8F
              else is_cont c1) \<and>
             is_cont c2 \<and> is_cont c3 \<and> valid_utf8 r
         | _ \<Rightarrow> False)
      else False)"

text \<open>
  The exceptions of the codec. \<^verbatim>\<open>XDRError\<close> carries a message; each message of the source
  is a constructor, with the number that the message interpolates. \<^verbatim>\<open>struct.error\<close> comes
  from \<^verbatim>\<open>struct.pack\<close> on a value out of range, \<^verbatim>\<open>UnicodeDecodeError\<close> from \<^verbatim>\<open>bytes.decode()\<close>.
  The two entry points catch every exception and raise an \<^verbatim>\<open>XDRError\<close> whose message embeds
  the text of the one caught.
\<close>

datatype xdr_exn =
    Unexpected_end_of_data
  | Fixed_opaque_data_must_be_exactly nat
  | Invalid_type_identifier nat
  | Invalid_device_ID_type nat
  | Invalid_state_ID_type nat
  | Invalid_file_handle_type nat
  | Invalid_attribute_type nat
  | Struct_error
  | UnicodeDecodeError
  | Failed_to_encode_LAYOUT_WCC xdr_exn
  | Failed_to_decode_LAYOUT_WCC xdr_exn

definition utf8_decode :: "bytes \<Rightarrow> xdr_exn + str" where
  "utf8_decode b = (if valid_utf8 b then Inr (map (\<lambda>x. char_of (unat x)) b)
                    else Inl UnicodeDecodeError)"

text \<open>\<^verbatim>\<open>bytes.hex()\<close>: two lower-case hexadecimal digits for each byte.\<close>

definition hex_digit :: "nat \<Rightarrow> char" where
  "hex_digit n = ''0123456789abcdef'' ! n"

definition hex :: "bytes \<Rightarrow> str" where
  "hex b = concat (map (\<lambda>x. [hex_digit (unat x div 16), hex_digit (unat x mod 16)]) b)"

text \<open>\<^verbatim>\<open>bytes.ljust(width, fill)\<close>: padded on the right up to the width, never cut.\<close>

definition ljust :: "nat \<Rightarrow> byte \<Rightarrow> bytes \<Rightarrow> bytes" where
  "ljust width fill b = b @ replicate (width - length b) fill"

text \<open>
  The layout structures are dictionaries read with \<^verbatim>\<open>.get(key, default)\<close>; they are records
  here, a missing key being the record with the default in that field. The attribute set
  stays a dictionary, from attribute names to integers.
\<close>

record StateId =
  seqid :: int
  other :: bytes

record DataServerEntry =
  device_id :: str
  state_id :: StateId
  file_handles :: "str list"
  attributes :: "string \<rightharpoonup> int"

record Mirror =
  mirror_id :: str
  data_servers :: "DataServerEntry list"

record LayoutDescriptor =
  mirrors :: "Mirror list"

text \<open>Sequencing of steps that may raise: the first exception ends the sequence.\<close>

definition and_then :: "'e + 'a \<Rightarrow> ('a \<Rightarrow> 'e + 'b) \<Rightarrow> 'e + 'b" where
  "and_then m f = (case m of Inl e \<Rightarrow> Inl e | Inr x \<Rightarrow> f x)"

text \<open>\<^verbatim>\<open>XDRPadding.calculate\<close>\<close>

definition calculate :: "nat \<Rightarrow> nat" where
  "calculate len = (4 - (len mod 4)) mod 4"

text \<open>
  \<^verbatim>\<open>struct.pack("!I", v)\<close> and \<^verbatim>\<open>struct.pack("!Q", v)\<close>: four and eight bytes, big-endian;
  \<^verbatim>\<open>struct.error\<close> for a value that is negative or too large. \<^verbatim>\<open>struct.unpack("!Q", b)\<close>
  reads eight bytes as \<open>unpack_I\<close> reads four.
\<close>

fun be_bytes :: "nat \<Rightarrow> nat \<Rightarrow> bytes" where
  "be_bytes 0 v = []"
| "be_bytes (Suc n) v = be_bytes n (v div 256) @ [of_nat (v mod 256)]"

definition pack_I :: "int \<Rightarrow> xdr_exn + bytes" where
  "pack_I v = (if 0 \<le> v \<and> v < 2 ^ 32 then Inr (be_bytes 4 (nat v)) else Inl Struct_error)"

definition pack_Q :: "int \<Rightarrow> xdr_exn + bytes" where
  "pack_Q v = (if 0 \<le> v \<and> v < 2 ^ 64 then Inr (be_bytes 8 (nat v)) else Inl Struct_error)"

definition unpack_Q :: "bytes \<Rightarrow> nat" where
  "unpack_Q b = foldl (\<lambda>acc x. acc * 256 + unat x) 0 b"

section \<open>Codec: the encoder (XDR-Encode-Decode.py)\<close>

text \<open>
  The methods of \<^verbatim>\<open>XDREncoder\<close> only ever extend \<^verbatim>\<open>self._buffer\<close>. Each helper is modelled by
  the bytes it appends, or the exception it raises; the entry point \<^verbatim>\<open>encode_layout_wcc\<close>
  takes the buffer as the encoder holds it (empty for a new \<^verbatim>\<open>XDREncoder()\<close>).
  The \<^verbatim>\<open>NFSType\<close> tags are \<open>LAYOUT_WCC = 1\<close>, \<open>DEVICEID = 2\<close>, \<open>STATEID = 3\<close>,
  \<open>FILEHANDLE = 4\<close>, \<open>ATTRIBUTE = 5\<close>.
\<close>

definition encode_uint32 :: "int \<Rightarrow> xdr_exn + bytes" where
  "encode_uint32 v = pack_I v"

definition encode_uint64 :: "int \<Rightarrow> xdr_exn + bytes" where
  "encode_uint64 v = pack_Q v"

definition encode_string :: "str \<Rightarrow> xdr_exn + bytes" where
  "encode_string v =
     (let encoded = utf8_encode v in
      and_then (encode_uint32 (int (length encoded))) (\<lambda>len.
      Inr (len @ encoded @ replicate (calculate (length encoded)) 0)))"

definition encode_fixed_opaque :: "bytes \<Rightarrow> nat \<Rightarrow> xdr_exn + bytes" where
  "encode_fixed_opaque d len =
     (if length d \<noteq> len then Inl (Fixed_opaque_data_must_be_exactly len) else Inr d)"

definition encode_variable_opaque :: "bytes \<Rightarrow> xdr_exn + bytes" where
  "encode_variable_opaque d =
     and_then (encode_uint32 (int (length d))) (\<lambda>len.
     Inr (len @ d @ replicate (calculate (length d)) 0))"

text \<open>The loop \<^verbatim>\<open>for item in items: encoder_func(item)\<close> and \<^verbatim>\<open>_encode_array\<close>.\<close>

fun encode_each :: "('a \<Rightarrow> xdr_exn + bytes) \<Rightarrow> 'a list \<Rightarrow> xdr_exn + bytes" where
  "encode_each encoder_func [] = Inr []"
| "encode_each encoder_func (item # items) =
     and_then (encoder_func item) (\<lambda>b.
     and_then (encode_each encoder_func items) (\<lambda>bs. Inr (b @ bs)))"

definition encode_array :: "'a list \<Rightarrow> ('a \<Rightarrow> xdr_exn + bytes) \<Rightarrow> xdr_exn + bytes" where
  "encode_array items encoder_func =
     and_then (encode_uint32 (int (length items))) (\<lambda>len.
     and_then (encode_each encoder_func items) (\<lambda>body. Inr (len @ body)))"

definition calculate_attribute_mask :: "(string \<rightharpoonup> int) \<Rightarrow> int" where
  "calculate_attribute_mask attrs =
     (let mask = 0;
          mask = (if ''size'' \<in> dom attrs then mask OR 1 else mask);
          mask = (if ''mtime'' \<in> dom attrs then mask OR 2 else mask)
      in mask)"

definition encode_attributes :: "(string \<rightharpoonup> int) \<Rightarrow> xdr_exn + bytes" where
  "encode_attributes attrs =
     and_then (encode_uint32 5) (\<lambda>tag.
     and_then (encode_uint32 (calculate_attribute_mask attrs)) (\<lambda>mask.
     and_then (case attrs ''size'' of Some v \<Rightarrow> encode_uint64 v | None \<Rightarrow> Inr []) (\<lambda>sz.
     and_then (case attrs ''mtime'' of Some v \<Rightarrow> encode_uint64 v | None \<Rightarrow> Inr []) (\<lambda>mt.
     Inr (tag @ mask @ sz @ mt)))))"

definition encode_filehandle :: "str \<Rightarrow> xdr_exn + bytes" where
  "encode_filehandle handle =
     and_then (encode_uint32 4) (\<lambda>tag.
     and_then (encode_variable_opaque (utf8_encode handle)) (\<lambda>b. Inr (tag @ b)))"

text \<open>\<^verbatim>\<open>_encode_stateid\<close> pads \<^verbatim>\<open>other\<close> with \<^verbatim>\<open>ljust(12, b'\0')\<close> before the length check.\<close>

definition encode_stateid :: "StateId \<Rightarrow> xdr_exn + bytes" where
  "encode_stateid sid =
     and_then (encode_uint32 3) (\<lambda>tag.
     and_then (encode_uint32 (seqid sid)) (\<lambda>sq.
     and_then (encode_fixed_opaque (ljust 12 0 (other sid)) 12) (\<lambda>b. Inr (tag @ sq @ b))))"

definition encode_deviceid :: "str \<Rightarrow> xdr_exn + bytes" where
  "encode_deviceid d =
     and_then (encode_uint32 2) (\<lambda>tag.
     and_then (encode_fixed_opaque (utf8_encode d) 16) (\<lambda>b. Inr (tag @ b)))"

definition encode_data_server :: "DataServerEntry \<Rightarrow> xdr_exn + bytes" where
  "encode_data_server server =
     and_then (encode_deviceid (device_id server)) (\<lambda>dev.
     and_then (encode_stateid (state_id server)) (\<lambda>st.
     and_then (encode_array (file_handles server) encode_filehandle) (\<lambda>hs.
     and_then (encode_attributes (attributes server)) (\<lambda>ats.
     Inr (dev @ st @ hs @ ats)))))"

definition encode_mirror :: "Mirror \<Rightarrow> xdr_exn + bytes" where
  "encode_mirror mirror =
     and_then (encode_string (mirror_id mirror)) (\<lambda>mid.
     and_then (encode_array (data_servers mirror) encode_data_server) (\<lambda>servers.
     Inr (mid @ servers)))"

text \<open>
  \<^verbatim>\<open>encode_layout_wcc\<close> returns \<^verbatim>\<open>bytes(self._buffer)\<close>: what the buffer held before the
  call and what the call appended. Any exception is caught and raised again as
  \<^verbatim>\<open>XDRError("Failed to encode LAYOUT_WCC: ...")\<close>.
\<close>

definition encode_layout_wcc :: "bytes \<Rightarrow> LayoutDescriptor \<Rightarrow> xdr_exn + bytes" where
  "encode_layout_wcc self_buffer layout =
     (case and_then (encode_uint32 1) (\<lambda>tag.
           and_then (encode_array (mirrors layout) encode_mirror) (\<lambda>ms. Inr (tag @ ms))) of
        Inl e \<Rightarrow> Inl (Failed_to_encode_LAYOUT_WCC e)
      | Inr b \<Rightarrow> Inr (self_buffer @ b))"

section \<open>Codec: the decoder (XDR-Encode-Decode.py)\<close>

text \<open>
  \<^verbatim>\<open>XDRDecoder\<close> holds the input and a read offset. Every method takes the decoder and
  returns its result with the decoder as it leaves it, or the exception it raises.
\<close>

record XDRDecoder =
  wire_data :: bytes
  offset :: nat

definition new_XDRDecoder :: "bytes \<Rightarrow> XDRDecoder" where
  "new_XDRDecoder d = \<lparr>wire_data = d, offset = 0\<rparr>"

text \<open>
  \<^verbatim>\<open>_read_bytes\<close> and \<^verbatim>\<open>_skip_bytes\<close>: the only places where the input is touched. The
  slice \<^verbatim>\<open>self._data[offset:offset + length]\<close> is \<open>take\<close> after \<open>drop\<close>.
\<close>

definition read_bytes :: "XDRDecoder \<Rightarrow> nat \<Rightarrow> xdr_exn + (bytes \<times> XDRDecoder)" where
  "read_bytes self len =
     (if offset self + len > length (wire_data self) then Inl Unexpected_end_of_data
      else Inr (take len (drop (offset self) (wire_data self)),
                self\<lparr>offset := offset self + len\<rparr>))"

definition skip_bytes :: "XDRDecoder \<Rightarrow> nat \<Rightarrow> xdr_exn + (unit \<times> XDRDecoder)" where
  "skip_bytes self len =
     (if offset self + len > length (wire_data self) then Inl Unexpected_end_of_data
      else Inr ((), self\<lparr>offset := offset self + len\<rparr>))"

definition decode_uint32 :: "XDRDecoder \<Rightarrow> xdr_exn + (nat \<times> XDRDecoder)" where
  "decode_uint32 self = and_then (read_bytes self 4) (\<lambda>(b, self). Inr (unpack_I b, self))"

definition decode_uint64 :: "XDRDecoder \<Rightarrow> xdr_exn + (nat \<times> XDRDecoder)" where
  "decode_uint64 self = and_then (read_bytes self 8) (\<lambda>(b, self). Inr (unpack_Q b, self))"

definition decode_string :: "XDRDecoder \<Rightarrow> xdr_exn + (str \<times> XDRDecoder)" where
  "decode_string self =
     and_then (decode_uint32 self) (\<lambda>(len, self).
     and_then (read_bytes self len) (\<lambda>(d, self).
     and_then (skip_bytes self (calculate len)) (\<lambda>(_, self).
     and_then (utf8_decode d) (\<lambda>s. Inr (s, self)))))"

definition decode_fixed_opaque :: "XDRDecoder \<Rightarrow> nat \<Rightarrow> xdr_exn + (bytes \<times> XDRDecoder)" where
  "decode_fixed_opaque self len = read_bytes self len"

definition decode_variable_opaque :: "XDRDecoder \<Rightarrow> xdr_exn + (bytes \<times> XDRDecoder)" where
  "decode_variable_opaque self =
     and_then (decode_uint32 self) (\<lambda>(len, self).
     and_then (read_bytes self len) (\<lambda>(d, self).
     and_then (skip_bytes self (calculate len)) (\<lambda>(_, self).
     Inr (d, self))))"

text \<open>
  \<^verbatim>\<open>_decode_array\<close>: the comprehension \<^verbatim>\<open>[decoder_func() for _ in range(length)]\<close> calls the
  element decoder \<open>length\<close> times, each call starting where the one before stopped.
\<close>

fun decode_each ::
  "(XDRDecoder \<Rightarrow> xdr_exn + ('a \<times> XDRDecoder)) \<Rightarrow> nat \<Rightarrow> XDRDecoder \<Rightarrow>
     xdr_exn + ('a list \<times> XDRDecoder)" where
  "decode_each decoder_func 0 self = Inr ([], self)"
| "decode_each decoder_func (Suc n) self =
     and_then (decoder_func self) (\<lambda>(x, self).
     and_then (decode_each decoder_func n self) (\<lambda>(xs, self). Inr (x # xs, self)))"

definition decode_array ::
  "XDRDecoder \<Rightarrow> (XDRDecoder \<Rightarrow> xdr_exn + ('a \<times> XDRDecoder)) \<Rightarrow>
     xdr_exn + ('a list \<times> XDRDecoder)" where
  "decode_array self decoder_func =
     and_then (decode_uint32 self) (\<lambda>(len, self). decode_each decoder_func len self)"

definition decode_attributes ::
  "XDRDecoder \<Rightarrow> xdr_exn + ((string \<rightharpoonup> int) \<times> XDRDecoder)" where
  "decode_attributes self =
     and_then (decode_uint32 self) (\<lambda>(type_id, self).
     if type_id \<noteq> 5 then Inl (Invalid_attribute_type type_id) else
     and_then (decode_uint32 self) (\<lambda>(mask, self).
     and_then (if mask AND 1 \<noteq> 0
               then and_then (decode_uint64 self) (\<lambda>(v, self).
                      Inr (Map.empty(''size'' \<mapsto> int v), self))
               else Inr (Map.empty, self)) (\<lambda>(attrs, self).
     if mask AND 2 \<noteq> 0
     then and_then (decode_uint64 self) (\<lambda>(v, self). Inr (attrs(''mtime'' \<mapsto> int v), self))
     else Inr (attrs, self))))"

definition decode_filehandle :: "XDRDecoder \<Rightarrow> xdr_exn + (str \<times> XDRDecoder)" where
  "decode_filehandle self =
     and_then (decode_uint32 self) (\<lambda>(type_id, self).
     if type_id \<noteq> 4 then Inl (Invalid_file_handle_type type_id) else
     and_then (decode_variable_opaque self) (\<lambda>(d, self). Inr (hex d, self)))"

definition decode_stateid :: "XDRDecoder \<Rightarrow> xdr_exn + (StateId \<times> XDRDecoder)" where
  "decode_stateid self =
     and_then (decode_uint32 self) (\<lambda>(type_id, self).
     if type_id \<noteq> 3 then Inl (Invalid_state_ID_type type_id) else
     and_then (decode_uint32 self) (\<lambda>(sq, self).
     and_then (decode_fixed_opaque self 12) (\<lambda>(oth, self).
     Inr (\<lparr>seqid = int sq, other = oth\<rparr>, self))))"

definition decode_deviceid :: "XDRDecoder \<Rightarrow> xdr_exn + (str \<times> XDRDecoder)" where
  "decode_deviceid self =
     and_then (decode_uint32 self) (\<lambda>(type_id, self).
     if type_id \<noteq> 2 then Inl (Invalid_device_ID_type type_id) else
     and_then (decode_fixed_opaque self 16) (\<lambda>(d, self). Inr (hex d, self)))"

definition decode_data_server :: "XDRDecoder \<Rightarrow> xdr_exn + (DataServerEntry \<times> XDRDecoder)" where
  "decode_data_server self =
     and_then (decode_deviceid self) (\<lambda>(dev, self).
     and_then (decode_stateid self) (\<lambda>(st, self).
     and_then (decode_array self decode_filehandle) (\<lambda>(handles, self).
     and_then (decode_attributes self) (\<lambda>(attrs, self).
     Inr (\<lparr>device_id = dev, state_id = st, file_handles = handles, attributes = attrs\<rparr>,
          self)))))"

definition decode_mirror :: "XDRDecoder \<Rightarrow> xdr_exn + (Mirror \<times> XDRDecoder)" where
  "decode_mirror self =
     and_then (decode_string self) (\<lambda>(mid, self).
     and_then (decode_array self decode_data_server) (\<lambda>(servers, self).
     Inr (\<lparr>mirror_id = mid, data_servers = servers\<rparr>, self)))"

text \<open>
  \<^verbatim>\<open>decode_layout_wcc\<close>: any exception is caught and raised again as
  \<^verbatim>\<open>XDRError("Failed to decode LAYOUT_WCC: ...")\<close>.
\<close>

definition decode_layout_wcc :: "XDRDecoder \<Rightarrow> xdr_exn + (LayoutDescriptor \<times> XDRDecoder)" where
  "decode_layout_wcc self =
     (case and_then (decode_uint32 self) (\<lambda>(type_id, self).
           if type_id \<noteq> 1 then Inl (Invalid_type_identifier type_id) else
           and_then (decode_array self decode_mirror) (\<lambda>(ms, self).
           Inr (\<lparr>mirrors = ms\<rparr>, self))) of
        Inl e \<Rightarrow> Inl (Failed_to_decode_LAYOUT_WCC e)
      | Inr r \<Rightarrow> Inr r)"

text \<open>
  The round trip of the spec: a descriptor is encoded by a new encoder and the bytes are
  decoded by a new decoder.
\<close>

definition decode_encode :: "LayoutDescriptor \<Rightarrow> xdr_exn + LayoutDescriptor" where
  "decode_encode d =
     and_then (encode_layout_wcc [] d) (\<lambda>b.
     and_then (decode_layout_wcc (new_XDRDecoder b)) (\<lambda>(d', self). Inr d'))"

section \<open>Codec: properties of decoding steps\<close>

text \<open>
  The decoder with its input cut to the first \<open>m\<close> bytes, and what it means that a decoding
  step is safe under truncation. A step that succeeds leaves the input as it is and does
  not move the offset backwards or, from within the input, beyond its end; and run on
  the input cut to \<open>m\<close> bytes, from an offset within the cut, it gives the same result
  when it ended within the cut, and otherwise raises \<^verbatim>\<open>XDRError("Unexpected end of data")\<close>.
\<close>

definition cut_input :: "nat \<Rightarrow> XDRDecoder \<Rightarrow> XDRDecoder" where
  "cut_input m self = self\<lparr>wire_data := take m (wire_data self)\<rparr>"


text \<open>
  A decoding step reads the bytes \<open>b\<close> as the value \<open>x\<close>: wherever \<open>b\<close> stands in the
  input, the step started at its first byte returns \<open>x\<close> and stops right after its last.
\<close>

definition decodes_to ::
  "(XDRDecoder \<Rightarrow> xdr_exn + ('a \<times> XDRDecoder)) \<Rightarrow> bytes \<Rightarrow> 'a \<Rightarrow> bool" where
  "decodes_to f b x =
     (\<forall>pre post. f \<lparr>wire_data = pre @ b @ post, offset = length pre\<rparr> =
        Inr (x, \<lparr>wire_data = pre @ b @ post, offset = length pre + length b\<rparr>))"

text \<open>
  The well-formed descriptors of the spec's data model: a \<^verbatim>\<open>device_id\<close> of exactly 16 bytes,
  a \<^verbatim>\<open>seqid\<close> that is a u32, an \<^verbatim>\<open>other\<close> of exactly 12 bytes, attributes among \<^verbatim>\<open>size\<close> and
  \<^verbatim>\<open>mtime\<close> with u64 values, a \<^verbatim>\<open>mirror_id\<close> that is a text, and every count and length
  within a u32.
\<close>

definition wf_attributes :: "(string \<rightharpoonup> int) \<Rightarrow> bool" where
  "wf_attributes attrs =
     (dom attrs \<subseteq> {''size'', ''mtime''} \<and> (\<forall>k v. attrs k = Some v \<longrightarrow> 0 \<le> v \<and> v < 2 ^ 64))"

definition wf_data_server :: "DataServerEntry \<Rightarrow> bool" where
  "wf_data_server s =
     (length (utf8_encode (device_id s)) = 16 \<and>
      0 \<le> seqid (state_id s) \<and> seqid (state_id s) < 2 ^ 32 \<and>
      length (other (state_id s)) = 12 \<and>
      length (file_handles s) < 2 ^ 32 \<and>
      (\<forall>h \<in> set (file_handles s). length (utf8_encode h) < 2 ^ 32) \<and>
      wf_attributes (attributes s))"

definition wf_mirror :: "Mirror \<Rightarrow> bool" where
  "wf_mirror m =
     (valid_utf8 (utf8_encode (mirror_id m)) \<and> length (utf8_encode (mirror_id m)) < 2 ^ 32 \<and>
      length (data_servers m) < 2 ^ 32 \<and> (\<forall>s \<in> set (data_servers m). wf_data_server s))"

definition well_formed :: "LayoutDescriptor \<Rightarrow> bool" where
  "well_formed d = (length (mirrors d) < 2 ^ 32 \<and> (\<forall>m \<in> set (mirrors d). wf_mirror m))"

text \<open>
  What the decoder makes of an encoded descriptor: each \<^verbatim>\<open>device_id\<close> and each file handle
  comes back as the hexadecimal text of its bytes.
\<close>

definition hex_data_server :: "DataServerEntry \<Rightarrow> DataServerEntry" where
  "hex_data_server s =
     s\<lparr>device_id := hex (utf8_encode (device_id s)),
       file_handles := map (\<lambda>h. hex (utf8_encode h)) (file_handles s)\<rparr>"

definition hex_mirror :: "Mirror \<Rightarrow> Mirror" where
  "hex_mirror m = m\<lparr>data_servers := map hex_data_server (data_servers m)\<rparr>"

definition hex_layout :: "LayoutDescriptor \<Rightarrow> LayoutDescriptor" where
  "hex_layout d = d\<lparr>mirrors := map hex_mirror (mirrors d)\<rparr>"

chapter \<open>Properties\<close>

section \<open>Transaction ids\<close>

lemma issue_xids_from:
  "issue_xids n s = map (\<lambda>k. (xid_counter s + 1 + int k) mod 0xFFFFFFFF) [0..<n]"
proof (induction n arbitrary: s)
  case 0
  then show ?case by simp
next
  case (Suc n)
  let ?s' = "s\<lparr>xid_counter := (xid_counter s + 1) mod 0xFFFFFFFF\<rparr>"
  have "issue_xids n ?s' = map (\<lambda>k. (xid_counter ?s' + 1 + int k) mod 0xFFFFFFFF) [0..<n]"
    by (rule Suc.IH)
  also have "\<dots> = map (\<lambda>k. (xid_counter s + 1 + int (Suc k)) mod 0xFFFFFFFF) [0..<n]"
    by (simp add: mod_add_left_eq add.assoc)
  also have "\<dots> = map (\<lambda>k. (xid_counter s + 1 + int k) mod 0xFFFFFFFF) (map Suc [0..<n])"
    by (simp only: map_map o_def)
  finally have r: "issue_xids n ?s' =
      map (\<lambda>k. (xid_counter s + 1 + int k) mod 0xFFFFFFFF) [Suc 0..<Suc n]"
    by (simp only: map_Suc_upt)
  have "[0..<Suc n] = 0 # [Suc 0..<Suc n]"
    by (simp add: upt_conv_Cons)
  then show ?case
    by (simp add: get_next_xid_def Let_def r del: upt_Suc)
qed

lemma nth_issue_xids:
  "i < n \<Longrightarrow> issue_xids n new_transport ! i = int (Suc i) mod 0xFFFFFFFF"
  by (simp add: issue_xids_from new_transport_def add.commute)

text \<open>
  Claim C3 as stated (the counter wraps modulo \<open>2^32 - 1\<close>, the value 0 is never issued, ids
  before wrap-around are pairwise distinct) fails in its second part: nothing in
  \<^verbatim>\<open>_get_next_xid\<close> skips 0. On a fresh connection the 4294967295th allocation finds the
  counter at \<open>0xFFFFFFFE\<close> and returns \<open>(0xFFFFFFFE + 1) % 0xFFFFFFFF = 0\<close>.
\<close>

theorem xid_zero_is_issued:
  "issue_xids 4294967295 new_transport ! 4294967294 = 0"
  by (simp add: nth_issue_xids)

text \<open>
  Claim C3, amended: the \<open>k\<close>-th id issued on a fresh connection is \<open>k mod (2^32 - 1)\<close>; so
  the first \<open>2^32 - 2\<close> ids issued are non-zero and pairwise distinct (and the next one, at
  the wrap-around, is 0).
\<close>

theorem xid_allocation_sequence:
  "(\<forall>i<n. issue_xids n new_transport ! i = int (Suc i) mod (2 ^ 32 - 1)) \<and>
   length (issue_xids n new_transport) = n \<and>
   (n \<le> 2 ^ 32 - 2 \<longrightarrow>
      distinct (issue_xids n new_transport) \<and> 0 \<notin> set (issue_xids n new_transport))"
proof (intro conjI impI allI)
  fix i assume "i < n"
  then show "issue_xids n new_transport ! i = int (Suc i) mod (2 ^ 32 - 1)"
    by (simp add: nth_issue_xids)
next
  show "length (issue_xids n new_transport) = n"
    by (simp add: issue_xids_from)
next
  assume "n \<le> 2 ^ 32 - 2"
  then have n: "n \<le> 4294967294" by simp
  have inj: "inj_on (\<lambda>k. (1 + int k) mod 4294967295) {0..<n}"
  proof (rule inj_onI)
    fix x y
    assume "x \<in> {0..<n}" "y \<in> {0..<n}"
      and e: "(1 + int x) mod 4294967295 = (1 + int y) mod 4294967295"
    then have "1 + int x < 4294967295" "1 + int y < 4294967295" using n by auto
    then show "x = y" using e by simp
  qed
  show "distinct (issue_xids n new_transport)"
    using inj by (simp add: issue_xids_from new_transport_def distinct_map)
  show "0 \<notin> set (issue_xids n new_transport)"
  proof
    assume "0 \<in> set (issue_xids n new_transport)"
    then obtain k where "k < n" "(1 + int k) mod 4294967295 = 0"
      by (auto simp: issue_xids_from new_transport_def)
    moreover have "1 + int k < 4294967295" using n \<open>k < n\<close> by simp
    ultimately show False by simp
  qed
qed

theorem xid_allocation_sequence_witness:
  "(2::nat) < 3 \<and> issue_xids 3 new_transport ! 2 = 3 \<and> (3::nat) \<le> 2 ^ 32 - 2 \<and>
   distinct (issue_xids 3 new_transport) \<and> 0 \<notin> set (issue_xids 3 new_transport)"
  using xid_allocation_sequence [of 3] by simp

section \<open>Inbound reassembly\<close>

text \<open>
  A state in which a length prefix has been read and the buffer holds at least four
  bytes but fewer than the frame needs: the loop condition holds, neither branch of the
  body changes anything, and the loop never ends.
\<close>

lemma receive_loop_stuck:
  assumes "expected_length s = Some n" "4 \<le> length (buffer s)" "length (buffer s) < n"
  shows "receive_loop s = None"
proof -
  have "x \<noteq> s" if "receive_loop x = Some y" for x y
  proof (rule receive_loop.raw_induct [where P = "\<lambda>x y. x \<noteq> s", OF _ that])
    fix f x y
    assume IH: "\<And>x y. f x = Some y \<Longrightarrow> x \<noteq> s"
      and step: "(if 4 \<le> length (buffer x)
        then let self1 = case expected_length x of
                   None \<Rightarrow> x\<lparr>expected_length := Some (unpack_I (take 4 (buffer x))),
                                 buffer := drop 4 (buffer x)\<rparr>
                 | Some n \<Rightarrow> x
             in case expected_length self1 of
                  None \<Rightarrow> f self1
                | Some n \<Rightarrow>
                    if n \<le> length (buffer self1)
                    then f (self1\<lparr>buffer := drop n (buffer self1),
                                  processed := processed self1 @ [take n (buffer self1)],
                                  expected_length := None\<rparr>)
                    else f self1
        else Some x) = Some y"
    show "x \<noteq> s"
    proof
      assume "x = s"
      with step assms have "f s = Some y" by (simp add: Let_def)
      with IH show False by blast
    qed
  qed
  then show ?thesis by (cases "receive_loop s") auto
qed

text \<open>
  Claim C2 (each \<^verbatim>\<open>data_received\<close> call terminates, delivers the complete frames available
  so far and keeps a trailing partial frame for the next call) at one chunk that carries
  the prefix of an 8-byte frame and the first four bytes of its payload: the call does not
  return.
\<close>

theorem data_received_partial_frame_diverges:
  "data_received new_NFSProtocolHandler [0, 0, 0, 8, 65, 66, 67, 68] = None"
  unfolding data_received_def
  apply (subst receive_loop.simps)
  apply (simp add: new_NFSProtocolHandler_def unpack_I_def Let_def)
  apply (rule receive_loop_stuck [where n = 8])
    apply simp_all
  done

text \<open>
  The loop condition also withholds short frames: when the prefix of a 2-byte frame comes
  in one chunk and its payload in the next, the second call returns with the complete
  frame still in the buffer, undelivered, since the buffer is shorter than four bytes.
\<close>

lemma data_received_prefix_only:
  "data_received new_NFSProtocolHandler [0, 0, 0, 2] =
     Some \<lparr>buffer = [], expected_length = Some 2, processed = []\<rparr>"
  unfolding data_received_def
  apply (subst receive_loop.simps)
  apply (simp add: new_NFSProtocolHandler_def unpack_I_def Let_def)
  apply (subst receive_loop.simps)
  apply simp
  done

lemma data_received_short_frame_withheld:
  "data_received \<lparr>buffer = [], expected_length = Some 2, processed = []\<rparr> [65, 66] =
     Some \<lparr>buffer = [65, 66], expected_length = Some 2, processed = []\<rparr>"
  unfolding data_received_def
  apply (subst receive_loop.simps)
  apply simp
  done

section \<open>Retry engine\<close>










text \<open>
  Claim C10: with \<open>max_retries = 0\<close> the loop body never runs. The call returns \<^verbatim>\<open>None\<close>,
  raises nothing, leaves the event loop as it was (the operation is not invoked, nothing
  is slept) and still stores metrics for the operation id: no retries, no success, no
  error, both time stamps set.
\<close>

theorem execute_with_recovery_no_attempts:
  assumes "max_retries (retry_config self) = 0"
  shows "execute_with_recovery self operation_id operation w =
    (Return_None,
     self\<lparr>operation_metrics := (operation_metrics self)(operation_id \<mapsto>
        \<lparr>start_time = now w, end_time = Some (now w), retries = 0, success = False,
         error = None\<rparr>)\<rparr>,
     w)"
  using assms by (simp add: execute_with_recovery_def range_py_def)

theorem execute_with_recovery_no_attempts_witness:
  "max_retries (retry_config
      \<lparr>retry_config = \<lparr>max_retries = 0, base_delay = 1, max_delay = 30, exponential_base = 2\<rparr>,
       operation_metrics = Map.empty\<rparr>) = 0 \<and>
   execute_with_recovery
     \<lparr>retry_config = \<lparr>max_retries = 0, base_delay = 1, max_delay = 30, exponential_base = 2\<rparr>,
      operation_metrics = Map.empty\<rparr>
     ''op1'' (\<lambda>attempt. Inr ''data'') \<lparr>now = 5, events = []\<rparr> =
   (Return_None,
    \<lparr>retry_config = \<lparr>max_retries = 0, base_delay = 1, max_delay = 30, exponential_base = 2\<rparr>,
     operation_metrics = [''op1'' \<mapsto>
       \<lparr>start_time = 5, end_time = Some 5, retries = 0, success = False, error = None\<rparr>]\<rparr>,
    \<lparr>now = 5, events = []\<rparr>)"
  using execute_with_recovery_no_attempts
    [of "\<lparr>retry_config = \<lparr>max_retries = 0, base_delay = 1, max_delay = 30, exponential_base = 2\<rparr>,
         operation_metrics = Map.empty\<rparr>" "''op1''" "\<lambda>attempt. Inr ''data''" "\<lparr>now = 5, events = []\<rparr>"]
  by simp

section \<open>The TTL cache\<close>

lemma lru_inv_new: "lru_inv (new_LRUCache n)"
  by (simp add: lru_inv_def new_LRUCache_def)

lemma lru_inv_get: "lru_inv c \<Longrightarrow> get c k = Inr (r, c') \<Longrightarrow> lru_inv c'"
  by (auto simp: lru_inv_def get_def split: if_splits)

lemma lru_inv_setitem: "lru_inv c \<Longrightarrow> setitem c k v = Inr c' \<Longrightarrow> lru_inv c'"
  by (auto simp: lru_inv_def setitem_def split: if_splits list.splits)







section \<open>The connection pool\<close>

text \<open>A connection that \<^verbatim>\<open>_acquire_connection\<close> finds in the pool is idle and has not expired.\<close>

lemma find_available_not_expired:
  "find_available timeout t pool = (cl, Some c, pool') \<Longrightarrow>
   \<exists>conn_id info. (conn_id, info) \<in> set pool \<and> connection info = c \<and> \<not> in_use info \<and>
      \<not> t - last_used info > of_int timeout"
proof (induction pool arbitrary: cl pool')
  case Nil
  then show ?case by simp
next
  case (Cons p pool)
  obtain conn_id info where p: "p = (conn_id, info)" by (cases p)
  show ?case
  proof (cases "\<not> in_use info \<and> \<not> is_connection_expired timeout t info")
    case True
    with Cons.prems p show ?thesis
      by (fastforce simp: is_connection_expired_def)
  next
    case False
    obtain cl0 f0 r0 where r: "find_available timeout t pool = (cl0, f0, r0)"
      by (cases "find_available timeout t pool")
    with False Cons.prems p have "f0 = Some c" by (auto split: if_splits)
    with Cons.IH r show ?thesis by fastforce
  qed
qed

text \<open>
  When every entry of a server's pool is idle and expired, the loop closes them all and
  returns none; the entries stay, so a pool that has reached \<^verbatim>\<open>pool_size\<close> entries is
  exhausted.
\<close>

lemma find_available_all_expired:
  "\<forall>p \<in> set pool. \<not> in_use (snd p) \<and> t - last_used (snd p) > of_int timeout \<Longrightarrow>
   find_available timeout t pool = (map (\<lambda>p. connection (snd p)) pool, None, pool)"
  by (induction pool) (auto simp: is_connection_expired_def)

lemma acquire_connection_all_expired:
  assumes "active_connections self sid = Some pool"
    and "\<forall>p \<in> set pool. \<not> in_use (snd p) \<and> t - last_used (snd p) > of_int (idle_timeout self)"
    and "pool_size self \<le> int (length pool)"
  shows "acquire_connection self t sid = Inl (ConnectionError ''Connection pool exhausted'')"
  using assms(1,3) find_available_all_expired [OF assms(2)]
  by (simp add: acquire_connection_def)

text \<open>
  Claim C6 (an acquire that finds a released connection idle beyond \<^verbatim>\<open>idle_timeout\<close> does not
  return it; it is closed and skipped and a new connection is created and returned
  instead) against the run of \<^verbatim>\<open>test_connection_management\<close> in integrationTest.py, with
  \<open>pool_size = 2\<close> and \<open>idle_timeout = 1\<close>: two connections are acquired, a third acquire
  is refused, both are released, and 1.1 seconds later a connection is asked for. The
  test expects a new connection there. The code skips the two expired connections but
  leaves their entries in the pool, finds \<^verbatim>\<open>len(server_pool) < pool_size\<close> false and raises
  \<^verbatim>\<open>ConnectionError\<close>.
\<close>

theorem pool_exhausted_by_expired_connections:
  "acquire_connection (new_ConnectionManager 2 1) 0 ''server1'' =
     Inr (\<lparr>conn_ref = 0, server_id = ''server1'', is_connected = True\<rparr>,
       \<lparr>pool_size = 2, idle_timeout = 1,
        active_connections = [''server1'' \<mapsto>
          [(0, \<lparr>connection = \<lparr>conn_ref = 0, server_id = ''server1'', is_connected = True\<rparr>, in_use = True, created = 0, last_used = 0\<rparr>)]],
        allocated = 1, close_calls = []\<rparr>) \<and>
   acquire_connection
       \<lparr>pool_size = 2, idle_timeout = 1,
        active_connections = [''server1'' \<mapsto>
          [(0, \<lparr>connection = \<lparr>conn_ref = 0, server_id = ''server1'', is_connected = True\<rparr>, in_use = True, created = 0, last_used = 0\<rparr>)]],
        allocated = 1, close_calls = []\<rparr> 0 ''server1'' =
     Inr (\<lparr>conn_ref = 1, server_id = ''server1'', is_connected = True\<rparr>,
       \<lparr>pool_size = 2, idle_timeout = 1,
        active_connections = [''server1'' \<mapsto>
          [(0, \<lparr>connection = \<lparr>conn_ref = 0, server_id = ''server1'', is_connected = True\<rparr>, in_use = True, created = 0, last_used = 0\<rparr>),
           (1, \<lparr>connection = \<lparr>conn_ref = 1, server_id = ''server1'', is_connected = True\<rparr>, in_use = True, created = 0, last_used = 0\<rparr>)]],
        allocated = 2, close_calls = []\<rparr>) \<and>
   acquire_connection
       \<lparr>pool_size = 2, idle_timeout = 1,
        active_connections = [''server1'' \<mapsto>
          [(0, \<lparr>connection = \<lparr>conn_ref = 0, server_id = ''server1'', is_connected = True\<rparr>, in_use = True, created = 0, last_used = 0\<rparr>),
           (1, \<lparr>connection = \<lparr>conn_ref = 1, server_id = ''server1'', is_connected = True\<rparr>, in_use = True, created = 0, last_used = 0\<rparr>)]],
        allocated = 2, close_calls = []\<rparr> 0 ''server1'' =
     Inl (ConnectionError ''Connection pool exhausted'') \<and>
   release_connection
       \<lparr>pool_size = 2, idle_timeout = 1,
        active_connections = [''server1'' \<mapsto>
          [(0, \<lparr>connection = \<lparr>conn_ref = 0, server_id = ''server1'', is_connected = True\<rparr>, in_use = True, created = 0, last_used = 0\<rparr>),
           (1, \<lparr>connection = \<lparr>conn_ref = 1, server_id = ''server1'', is_connected = True\<rparr>, in_use = True, created = 0, last_used = 0\<rparr>)]],
        allocated = 2, close_calls = []\<rparr> 0 ''server1''
       \<lparr>conn_ref = 1, server_id = ''server1'', is_connected = True\<rparr> =
       \<lparr>pool_size = 2, idle_timeout = 1,
        active_connections = [''server1'' \<mapsto>
          [(0, \<lparr>connection = \<lparr>conn_ref = 0, server_id = ''server1'', is_connected = True\<rparr>, in_use = True, created = 0, last_used = 0\<rparr>),
           (1, \<lparr>connection = \<lparr>conn_ref = 1, server_id = ''server1'', is_connected = True\<rparr>, in_use = False, created = 0, last_used = 0\<rparr>)]],
        allocated = 2, close_calls = []\<rparr> \<and>
   release_connection
       \<lparr>pool_size = 2, idle_timeout = 1,
        active_connections = [''server1'' \<mapsto>
          [(0, \<lparr>connection = \<lparr>conn_ref = 0, server_id = ''server1'', is_connected = True\<rparr>, in_use = True, created = 0, last_used = 0\<rparr>),
           (1, \<lparr>connection = \<lparr>conn_ref = 1, server_id = ''server1'', is_connected = True\<rparr>, in_use = False, created = 0, last_used = 0\<rparr>)]],
        allocated = 2, close_calls = []\<rparr> 0 ''server1''
       \<lparr>conn_ref = 0, server_id = ''server1'', is_connected = True\<rparr> =
       \<lparr>pool_size = 2, idle_timeout = 1,
        active_connections = [''server1'' \<mapsto>
          [(0, \<lparr>connection = \<lparr>conn_ref = 0, server_id = ''server1'', is_connected = True\<rparr>, in_use = False, created = 0, last_used = 0\<rparr>),
           (1, \<lparr>connection = \<lparr>conn_ref = 1, server_id = ''server1'', is_connected = True\<rparr>, in_use = False, created = 0, last_used = 0\<rparr>)]],
        allocated = 2, close_calls = []\<rparr> \<and>
   acquire_connection
       \<lparr>pool_size = 2, idle_timeout = 1,
        active_connections = [''server1'' \<mapsto>
          [(0, \<lparr>connection = \<lparr>conn_ref = 0, server_id = ''server1'', is_connected = True\<rparr>, in_use = False, created = 0, last_used = 0\<rparr>),
           (1, \<lparr>connection = \<lparr>conn_ref = 1, server_id = ''server1'', is_connected = True\<rparr>, in_use = False, created = 0, last_used = 0\<rparr>)]],
        allocated = 2, close_calls = []\<rparr> (11 / 10) ''server1'' =
     Inl (ConnectionError ''Connection pool exhausted'')"
  by (simp add: acquire_connection_def release_connection_def new_ConnectionManager_def
      is_connection_expired_def Let_def numeral_2_eq_2)

section \<open>Codec: sequencing, packing and unpacking\<close>

lemma and_then_Inr [simp]: "and_then (Inr x) f = f x"
  by (simp add: and_then_def)

lemma and_then_Inl [simp]: "and_then (Inl e) f = Inl e"
  by (simp add: and_then_def)

lemma and_then_eq_Inr:
  "and_then m f = Inr y \<longleftrightarrow> (\<exists>x. m = Inr x \<and> f x = Inr y)"
  by (cases m) simp_all

lemma length_be_bytes [simp]: "length (be_bytes n v) = n"
  by (induction n arbitrary: v) simp_all

lemma unat_of_nat_mod_256: "unat (of_nat (v mod 256) :: byte) = v mod 256"
  by (simp add: unat_of_nat)

lemma unat_byte_less: "unat (x :: byte) < 256"
  using unsigned_less [of x, where 'a = nat] by simp

lemma foldl_be_bytes:
  "foldl (\<lambda>acc x. acc * 256 + unat x) a (be_bytes n v) = a * 256 ^ n + v mod 256 ^ n"
proof (induction n arbitrary: v a)
  case 0
  then show ?case by simp
next
  case (Suc n)
  have m: "v div 256 mod 256 ^ n * 256 + v mod 256 = v mod 256 ^ Suc n"
    by (simp add: mod_mult2_eq)
  have "foldl (\<lambda>acc x. acc * 256 + unat x) a (be_bytes (Suc n) v) =
        (a * 256 ^ n + v div 256 mod 256 ^ n) * 256 + v mod 256"
    by (simp add: Suc.IH unat_of_nat)
  also have "\<dots> = a * 256 ^ Suc n + (v div 256 mod 256 ^ n * 256 + v mod 256)"
    by (simp add: algebra_simps)
  finally show ?case unfolding m .
qed

lemma unpack_I_be_bytes: "v < 2 ^ 32 \<Longrightarrow> unpack_I (be_bytes 4 v) = v"
  by (simp add: unpack_I_def foldl_be_bytes)

lemma unpack_Q_be_bytes: "v < 2 ^ 64 \<Longrightarrow> unpack_Q (be_bytes 8 v) = v"
  by (simp add: unpack_Q_def foldl_be_bytes)

lemma foldl_bytes_bound:
  "foldl (\<lambda>acc x. acc * 256 + unat x) a (b :: bytes) < (a + 1) * 256 ^ length b"
proof (induction b arbitrary: a)
  case Nil
  then show ?case by simp
next
  case (Cons x b)
  have "unat x < 256" by (rule unat_byte_less)
  then have "a * 256 + unat x + 1 \<le> (a + 1) * 256" by simp
  then have le: "(a * 256 + unat x + 1) * 256 ^ length b \<le> (a + 1) * 256 * 256 ^ length b"
    by (rule mult_le_mono1)
  have "foldl (\<lambda>acc x. acc * 256 + unat x) (a * 256 + unat x) b
        < (a * 256 + unat x + 1) * 256 ^ length b"
    by (rule Cons.IH)
  then have "foldl (\<lambda>acc x. acc * 256 + unat x) (a * 256 + unat x) b
        < (a + 1) * 256 * 256 ^ length b"
    using le by (rule less_le_trans)
  also have "(a + 1) * 256 * 256 ^ length b = (a + 1) * 256 ^ length (x # b)"
    by (simp add: algebra_simps)
  finally show ?case by simp
qed

lemma be_bytes_foldl:
  "be_bytes (length b) (foldl (\<lambda>acc x. acc * 256 + unat x) a (b :: bytes)) = b"
proof (induction b arbitrary: a rule: rev_induct)
  case Nil
  then show ?case by simp
next
  case (snoc x b)
  have "unat x < 256" by (rule unat_byte_less)
  then show ?case using snoc.IH [of a]
    by simp
qed


lemma unpack_I_bound: "length b = 4 \<Longrightarrow> unpack_I b < 2 ^ 32"
  using foldl_bytes_bound [of 0 b] by (simp add: unpack_I_def)

lemma unpack_Q_bound: "length b = 8 \<Longrightarrow> unpack_Q b < 2 ^ 64"
  using foldl_bytes_bound [of 0 b] by (simp add: unpack_Q_def)

lemma be_bytes_unpack_I: "length b = 4 \<Longrightarrow> be_bytes 4 (unpack_I b) = b"
  using be_bytes_foldl [of b 0] by (simp add: unpack_I_def)

lemma be_bytes_unpack_Q: "length b = 8 \<Longrightarrow> be_bytes 8 (unpack_Q b) = b"
  using be_bytes_foldl [of b 0] by (simp add: unpack_Q_def)

lemma nat_and_3_cases:
  fixes m :: nat
  shows "m AND 3 = (if m AND 1 \<noteq> 0 then 1 else 0) + (if m AND 2 \<noteq> 0 then 2 else 0)"
proof -
  have "m AND mask 2 = m mod 2 ^ 2"
    by (simp only: take_bit_eq_mask [symmetric] take_bit_eq_mod)
  then have a3: "m AND 3 = m mod 4"
    by (simp add: mask_eq_exp_minus_1)
  have a1: "m AND 1 = m mod 2" by (simp add: and_one_eq)
  have "m AND 2 ^ 1 = 0 \<longleftrightarrow> \<not> bit m 1" by (rule and_exp_eq_0_iff_not_bit)
  then have a2: "m AND 2 \<noteq> 0 \<longleftrightarrow> odd (m div 2)" by (simp add: bit_iff_odd)
  show ?thesis unfolding a3 a1 a2 by presburger
qed

text \<open>Closed forms and unfolding sets for evaluating the codec on concrete values.\<close>

lemma be_bytes_4:
  "be_bytes 4 v = [of_nat (v div 256 div 256 div 256 mod 256), of_nat (v div 256 div 256 mod 256),
                   of_nat (v div 256 mod 256), of_nat (v mod 256)]"
proof -
  have "(4::nat) = Suc (Suc (Suc (Suc 0)))" by simp
  then show ?thesis by (simp only: be_bytes.simps append.simps)
qed

lemma be_bytes_8:
  "be_bytes 8 v =
     [of_nat (v div 256 div 256 div 256 div 256 div 256 div 256 div 256 mod 256),
      of_nat (v div 256 div 256 div 256 div 256 div 256 div 256 mod 256),
      of_nat (v div 256 div 256 div 256 div 256 div 256 mod 256),
      of_nat (v div 256 div 256 div 256 div 256 mod 256),
      of_nat (v div 256 div 256 div 256 mod 256), of_nat (v div 256 div 256 mod 256),
      of_nat (v div 256 mod 256), of_nat (v mod 256)]"
proof -
  have "(8::nat) = Suc (Suc (Suc (Suc (Suc (Suc (Suc (Suc 0)))))))" by simp
  then show ?thesis by (simp only: be_bytes.simps append.simps)
qed

lemma replicate_numeral_Cons:
  "replicate (numeral k) x = x # replicate (pred_numeral k) x"
  by (simp only: numeral_eq_Suc replicate.simps)

lemmas enc_defs = encode_layout_wcc_def encode_array_def encode_mirror_def encode_string_def
  encode_data_server_def encode_deviceid_def encode_stateid_def encode_filehandle_def
  encode_attributes_def encode_uint32_def encode_uint64_def encode_fixed_opaque_def
  encode_variable_opaque_def calculate_attribute_mask_def pack_I_def pack_Q_def
  utf8_encode_def ljust_def calculate_def Let_def be_bytes_4 be_bytes_8
  replicate_numeral_Cons

lemmas dec_defs = decode_layout_wcc_def decode_array_def decode_mirror_def decode_string_def
  decode_data_server_def decode_deviceid_def decode_stateid_def decode_filehandle_def
  decode_attributes_def decode_uint32_def decode_uint64_def decode_fixed_opaque_def
  decode_variable_opaque_def read_bytes_def skip_bytes_def unpack_I_def unpack_Q_def
  utf8_decode_def hex_def hex_digit_def calculate_def new_XDRDecoder_def is_cont_def

lemma decode_each_numeral:
  "decode_each f (numeral k) s = and_then (f s) (\<lambda>(x, s).
     and_then (decode_each f (pred_numeral k) s) (\<lambda>(xs, s). Inr (x # xs, s)))"
  by (simp only: numeral_eq_Suc decode_each.simps)

lemma decode_each_1:
  "decode_each f 1 s = and_then (f s) (\<lambda>(x, s).
     and_then (decode_each f 0 s) (\<lambda>(xs, s). Inr (x # xs, s)))"
  unfolding One_nat_def by (simp only: decode_each.simps)

section \<open>Codec: attribute sets\<close>

lemma read_bytes_Inr:
  "read_bytes self n = Inr (b, self') \<longleftrightarrow>
     offset self + n \<le> length (wire_data self) \<and>
     b = take n (drop (offset self) (wire_data self)) \<and> self' = self\<lparr>offset := offset self + n\<rparr>"
  by (auto simp: read_bytes_def)

lemma read_bytes_length: "read_bytes self n = Inr (b, self') \<Longrightarrow> length b = n"
  by (auto simp: read_bytes_def split: if_splits)

lemma decode_uint32_Inr:
  "decode_uint32 self = Inr (v, self') \<longleftrightarrow>
     offset self + 4 \<le> length (wire_data self) \<and>
     v = unpack_I (take 4 (drop (offset self) (wire_data self))) \<and>
     self' = self\<lparr>offset := offset self + 4\<rparr>"
  by (auto simp: decode_uint32_def and_then_eq_Inr read_bytes_Inr)

lemma decode_uint64_Inr:
  "decode_uint64 self = Inr (v, self') \<longleftrightarrow>
     offset self + 8 \<le> length (wire_data self) \<and>
     v = unpack_Q (take 8 (drop (offset self) (wire_data self))) \<and>
     self' = self\<lparr>offset := offset self + 8\<rparr>"
  by (auto simp: decode_uint64_def and_then_eq_Inr read_bytes_Inr)

lemma decode_attributes_dom:
  assumes "decode_uint32 self = Inr (type_id, self1)"
    and "decode_uint32 self1 = Inr (m, self2)"
    and "decode_attributes self = Inr (attrs, self')"
  shows "type_id = 5" and "''size'' \<in> dom attrs \<longleftrightarrow> m AND 1 \<noteq> 0"
    and "''mtime'' \<in> dom attrs \<longleftrightarrow> m AND 2 \<noteq> 0"
    and "dom attrs \<subseteq> {''size'', ''mtime''}"
proof -
  from assms show t: "type_id = 5"
    by (auto simp: decode_attributes_def split: if_splits)
  obtain a1 s3 where
    a1: "(if m AND 1 \<noteq> 0
          then and_then (decode_uint64 self2) (\<lambda>(v, self). Inr (Map.empty(''size'' \<mapsto> int v), self))
          else Inr (Map.empty, self2)) = Inr (a1, s3)"
    and a2: "(if m AND 2 \<noteq> 0
          then and_then (decode_uint64 s3) (\<lambda>(v, self). Inr (a1(''mtime'' \<mapsto> int v), self))
          else Inr (a1, s3)) = Inr (attrs, self')"
    using assms t by (auto simp: decode_attributes_def and_then_eq_Inr)
  have d1: "''size'' \<in> dom a1 \<longleftrightarrow> m AND 1 \<noteq> 0" "''mtime'' \<notin> dom a1"
    and d1': "\<forall>x y. a1 x = Some y \<longrightarrow> x = ''size''"
    using a1 by (auto simp: and_then_eq_Inr split: if_splits)
  show "''size'' \<in> dom attrs \<longleftrightarrow> m AND 1 \<noteq> 0"
    using a2 d1 by (auto simp: and_then_eq_Inr split: if_splits)
  show "''mtime'' \<in> dom attrs \<longleftrightarrow> m AND 2 \<noteq> 0"
    using a2 d1 by (auto simp: and_then_eq_Inr split: if_splits)
  show "dom attrs \<subseteq> {''size'', ''mtime''}"
    using a2 d1' by (fastforce simp: and_then_eq_Inr split: if_splits)
qed

lemma decode_attributes_mask:
  assumes "decode_uint32 self = Inr (type_id, self1)"
    and "decode_uint32 self1 = Inr (m, self2)"
    and "decode_attributes self = Inr (attrs, self')"
  shows "calculate_attribute_mask attrs = int (m AND 3)"
  unfolding calculate_attribute_mask_def Let_def decode_attributes_dom(2,3) [OF assms]
    nat_and_3_cases [of m]
  by simp


lemma pack_I_nat: "v < 2 ^ 32 \<Longrightarrow> pack_I (int v) = Inr (be_bytes 4 v)"
  by (simp add: pack_I_def)

lemma pack_Q_nat: "v < 2 ^ 64 \<Longrightarrow> pack_Q (int v) = Inr (be_bytes 8 v)"
  by (simp add: pack_Q_def)

lemma pack_Q_unpack_Q:
  assumes "length b = 8"
  shows "pack_Q (int (unpack_Q b)) = Inr b"
  using pack_Q_nat [OF unpack_Q_bound [OF assms]] be_bytes_unpack_Q [OF assms]
  by (simp only:)

lemma decode_uint64_reencode:
  assumes "decode_uint64 self = Inr (v, self')"
  shows "encode_uint64 (int v) = Inr (take 8 (drop (offset self) (wire_data self)))"
    and "offset self' = offset self + 8" and "wire_data self' = wire_data self"
  using assms by (auto simp: decode_uint64_Inr encode_uint64_def pack_Q_unpack_Q)

lemma nat_and_3_less: "(m::nat) AND 3 < 2 ^ 32"
  unfolding nat_and_3_cases [of m] by simp

lemma decode_attributes_reencode:
  assumes "decode_uint32 self = Inr (type_id, self1)"
    and "decode_uint32 self1 = Inr (m, self2)"
    and "decode_attributes self = Inr (attrs, self')"
  shows "encode_attributes attrs =
         Inr (be_bytes 4 5 @ be_bytes 4 (m AND 3) @
              take (offset self' - offset self2) (drop (offset self2) (wire_data self2)))"
proof -
  have t: "type_id = 5" by (rule decode_attributes_dom(1) [OF assms])
  have mk: "encode_uint32 (calculate_attribute_mask attrs) = Inr (be_bytes 4 (m AND 3))"
    unfolding decode_attributes_mask [OF assms] encode_uint32_def
    by (rule pack_I_nat) (rule nat_and_3_less)
  have tg: "encode_uint32 5 = Inr (be_bytes 4 5)"
    using pack_I_nat [of 5] by (simp add: encode_uint32_def)
  obtain a1 s3 where
    a1: "(if m AND 1 \<noteq> 0
          then and_then (decode_uint64 self2) (\<lambda>(v, self). Inr (Map.empty(''size'' \<mapsto> int v), self))
          else Inr (Map.empty, self2)) = Inr (a1, s3)"
    and a2: "(if m AND 2 \<noteq> 0
          then and_then (decode_uint64 s3) (\<lambda>(v, self). Inr (a1(''mtime'' \<mapsto> int v), self))
          else Inr (a1, s3)) = Inr (attrs, self')"
    using assms t by (auto simp: decode_attributes_def and_then_eq_Inr)
  let ?d = "wire_data self2" and ?o = "offset self2"
  have s1: "(case a1 ''size'' of Some v \<Rightarrow> encode_uint64 v | None \<Rightarrow> Inr []) =
            Inr (take (offset s3 - ?o) (drop ?o ?d))"
    and s1': "a1 ''mtime'' = None" "wire_data s3 = ?d" "?o \<le> offset s3"
      "offset s3 = ?o \<or> offset s3 = ?o + 8"
    using a1 by (auto simp: and_then_eq_Inr decode_uint64_reencode split: if_splits)
  have s2: "(case attrs ''mtime'' of Some v \<Rightarrow> encode_uint64 v | None \<Rightarrow> Inr []) =
            Inr (take (offset self' - offset s3) (drop (offset s3) ?d))"
    and s2': "attrs ''size'' = a1 ''size''" "offset s3 \<le> offset self'"
    using a2 s1' by (auto simp: and_then_eq_Inr decode_uint64_reencode split: if_splits)
  have cat: "take (offset s3 - ?o) (drop ?o ?d) @ take (offset self' - offset s3) (drop (offset s3) ?d)
             = take (offset self' - ?o) (drop ?o ?d)"
  proof -
    have "offset self' - ?o = (offset s3 - ?o) + (offset self' - offset s3)"
      using s1'(3) s2'(2) by simp
    moreover have "drop (offset s3) ?d = drop (offset s3 - ?o) (drop ?o ?d)"
      using s1'(3) by simp
    ultimately show ?thesis by (simp only: take_add)
  qed
  show ?thesis
    unfolding encode_attributes_def tg mk s2'(1) s1 s2
    by (simp add: cat)
qed

text \<open>
  Claim C8 as stated (a bitmask with bits other than bit 0 and bit 1 set keeps them through
  decoding and re-encoding) fails: the decoder keeps only the values of \<^verbatim>\<open>size\<close> and
  \<^verbatim>\<open>mtime\<close>, and \<^verbatim>\<open>_calculate_attribute_mask\<close> rebuilds the mask from those two keys. An
  attribute set sent with mask 7, size 1024 and mtime 9 is re-encoded with mask 3.
\<close>

theorem unknown_attribute_bits_dropped:
  "decode_attributes (new_XDRDecoder 
      [0, 0, 0, 5, 0, 0, 0, 7, 0, 0, 0, 0, 0, 0, 4, 0, 0, 0, 0, 0, 0, 0, 0, 9]) =
     Inr ([''size'' \<mapsto> 1024, ''mtime'' \<mapsto> 9], \<lparr>wire_data = 
      [0, 0, 0, 5, 0, 0, 0, 7, 0, 0, 0, 0, 0, 0, 4, 0, 0, 0, 0, 0, 0, 0, 0, 9], offset = 24\<rparr>) \<and>
   encode_attributes [''size'' \<mapsto> 1024, ''mtime'' \<mapsto> 9] = Inr 
      [0, 0, 0, 5, 0, 0, 0, 3, 0, 0, 0, 0, 0, 0, 4, 0, 0, 0, 0, 0, 0, 0, 0, 9]"
  by (simp add: dec_defs enc_defs)

text \<open>
  Claim C8, amended: when an attribute set with bitmask \<open>m\<close> decodes, the mask rebuilt from
  the decoded set is \<open>m AND 3\<close>, and re-encoding gives the tag, the mask \<open>m AND 3\<close> and the
  very bytes of the values that were read: bit 0 and bit 1 come back unchanged, every
  other bit comes back cleared.
\<close>

theorem attributes_reencode_mask:
  assumes "decode_uint32 self = Inr (type_id, self1)"
    and "decode_uint32 self1 = Inr (m, self2)"
    and "decode_attributes self = Inr (attrs, self')"
  shows "calculate_attribute_mask attrs = int (m AND 3) \<and>
         encode_attributes attrs =
           Inr (be_bytes 4 5 @ be_bytes 4 (m AND 3) @
                take (offset self' - offset self2) (drop (offset self2) (wire_data self2)))"
  using decode_attributes_mask [OF assms] decode_attributes_reencode [OF assms] by simp

theorem attributes_reencode_mask_witness:
  "decode_uint32 (new_XDRDecoder 
      [0, 0, 0, 5, 0, 0, 0, 7, 0, 0, 0, 0, 0, 0, 4, 0, 0, 0, 0, 0, 0, 0, 0, 9]) = Inr (5, \<lparr>wire_data = 
      [0, 0, 0, 5, 0, 0, 0, 7, 0, 0, 0, 0, 0, 0, 4, 0, 0, 0, 0, 0, 0, 0, 0, 9], offset = 4\<rparr>) \<and>
   decode_uint32 \<lparr>wire_data = 
      [0, 0, 0, 5, 0, 0, 0, 7, 0, 0, 0, 0, 0, 0, 4, 0, 0, 0, 0, 0, 0, 0, 0, 9], offset = 4\<rparr> = Inr (7, \<lparr>wire_data = 
      [0, 0, 0, 5, 0, 0, 0, 7, 0, 0, 0, 0, 0, 0, 4, 0, 0, 0, 0, 0, 0, 0, 0, 9], offset = 8\<rparr>) \<and>
   decode_attributes (new_XDRDecoder 
      [0, 0, 0, 5, 0, 0, 0, 7, 0, 0, 0, 0, 0, 0, 4, 0, 0, 0, 0, 0, 0, 0, 0, 9]) = Inr ([''size'' \<mapsto> 1024, ''mtime'' \<mapsto> 9], \<lparr>wire_data = 
      [0, 0, 0, 5, 0, 0, 0, 7, 0, 0, 0, 0, 0, 0, 4, 0, 0, 0, 0, 0, 0, 0, 0, 9], offset = 24\<rparr>) \<and>
   calculate_attribute_mask [''size'' \<mapsto> 1024, ''mtime'' \<mapsto> 9] = 3 \<and>
   encode_attributes [''size'' \<mapsto> 1024, ''mtime'' \<mapsto> 9] = Inr 
      [0, 0, 0, 5, 0, 0, 0, 3, 0, 0, 0, 0, 0, 0, 4, 0, 0, 0, 0, 0, 0, 0, 0, 9]"
proof -
  have 1: "decode_uint32 (new_XDRDecoder 
      [0, 0, 0, 5, 0, 0, 0, 7, 0, 0, 0, 0, 0, 0, 4, 0, 0, 0, 0, 0, 0, 0, 0, 9]) = Inr (5, \<lparr>wire_data = 
      [0, 0, 0, 5, 0, 0, 0, 7, 0, 0, 0, 0, 0, 0, 4, 0, 0, 0, 0, 0, 0, 0, 0, 9], offset = 4\<rparr>)"
    by (simp add: dec_defs)
  have 2: "decode_uint32 \<lparr>wire_data = 
      [0, 0, 0, 5, 0, 0, 0, 7, 0, 0, 0, 0, 0, 0, 4, 0, 0, 0, 0, 0, 0, 0, 0, 9], offset = 4\<rparr> = Inr (7, \<lparr>wire_data = 
      [0, 0, 0, 5, 0, 0, 0, 7, 0, 0, 0, 0, 0, 0, 4, 0, 0, 0, 0, 0, 0, 0, 0, 9], offset = 8\<rparr>)"
    by (simp add: dec_defs)
  have 3: "decode_attributes (new_XDRDecoder 
      [0, 0, 0, 5, 0, 0, 0, 7, 0, 0, 0, 0, 0, 0, 4, 0, 0, 0, 0, 0, 0, 0, 0, 9]) = Inr ([''size'' \<mapsto> 1024, ''mtime'' \<mapsto> 9], \<lparr>wire_data = 
      [0, 0, 0, 5, 0, 0, 0, 7, 0, 0, 0, 0, 0, 0, 4, 0, 0, 0, 0, 0, 0, 0, 0, 9], offset = 24\<rparr>)"
    by (simp add: dec_defs)
  have 4: "(7::nat) AND 3 = 3" by simp
  from attributes_reencode_mask [OF 1 2 3] 1 2 3 show ?thesis
    by (simp add: 4 be_bytes_4)
qed

section \<open>Codec: the fixed-width contract\<close>

lemma isl_and_then: "isl (and_then m f) \<longleftrightarrow> (case m of Inl e \<Rightarrow> True | Inr x \<Rightarrow> isl (f x))"
  by (cases m) simp_all

lemma isl_and_then_first: "isl m \<Longrightarrow> isl (and_then m f)"
  by (cases m) simp_all

lemma isl_and_then_second: "(\<And>x. isl (f x)) \<Longrightarrow> isl (and_then m f)"
  by (cases m) simp_all

lemma encode_each_fails: "x \<in> set xs \<Longrightarrow> isl (f x) \<Longrightarrow> isl (encode_each f xs)"
proof (induction xs)
  case Nil
  then show ?case by simp
next
  case (Cons a xs)
  show ?case
  proof (cases "f a")
    case (Inl e0)
    then show ?thesis by simp
  next
    case (Inr b)
    show ?thesis
    proof (cases "x = a")
      case True
      with Cons.prems Inr show ?thesis by simp
    next
      case False
      with Cons have "isl (encode_each f xs)" by auto
      with Inr show ?thesis by (simp add: isl_and_then_first)
    qed
  qed
qed

lemma encode_array_fails: "x \<in> set xs \<Longrightarrow> isl (f x) \<Longrightarrow> isl (encode_array xs f)"
  unfolding encode_array_def
  by (rule isl_and_then_second) (simp add: isl_and_then_first encode_each_fails)

lemma encode_deviceid_fails:
  "length (utf8_encode d) \<noteq> 16 \<Longrightarrow> encode_deviceid d = Inl (Fixed_opaque_data_must_be_exactly 16)"
  by (simp add: encode_deviceid_def encode_uint32_def pack_I_def encode_fixed_opaque_def)

lemma encode_stateid_fails: "length (other sid) > 12 \<Longrightarrow> isl (encode_stateid sid)"
  by (cases "encode_uint32 (seqid sid)")
    (simp_all add: encode_stateid_def isl_and_then encode_fixed_opaque_def ljust_def split: sum.split)

lemma encode_data_server_fails:
  assumes "length (utf8_encode (device_id s)) \<noteq> 16 \<or> length (other (state_id s)) > 12"
  shows "isl (encode_data_server s)"
proof (cases "length (utf8_encode (device_id s)) \<noteq> 16")
  case True
  then show ?thesis by (simp add: encode_data_server_def encode_deviceid_fails)
next
  case False
  with assms have "isl (encode_stateid (state_id s))"
    using encode_stateid_fails by blast
  then show ?thesis
    unfolding encode_data_server_def
    by (intro isl_and_then_second isl_and_then_first)
qed

lemma encode_mirror_fails:
  assumes "s \<in> set (data_servers m)"
    and "length (utf8_encode (device_id s)) \<noteq> 16 \<or> length (other (state_id s)) > 12"
  shows "isl (encode_mirror m)"
  unfolding encode_mirror_def
  by (intro isl_and_then_second isl_and_then_first
      encode_array_fails [OF assms(1)] encode_data_server_fails [OF assms(2)])

lemma encode_layout_wcc_fails:
  assumes "m \<in> set (mirrors layout)" and "s \<in> set (data_servers m)"
    and "length (utf8_encode (device_id s)) \<noteq> 16 \<or> length (other (state_id s)) > 12"
  shows "\<exists>e. encode_layout_wcc buf layout = Inl (Failed_to_encode_LAYOUT_WCC e)"
proof -
  have "isl (and_then (encode_uint32 1) (\<lambda>tag.
           and_then (encode_array (mirrors layout) encode_mirror) (\<lambda>ms. Inr (tag @ ms))))"
    by (intro isl_and_then_second isl_and_then_first
        encode_array_fails [OF assms(1)] encode_mirror_fails [OF assms(2,3)])
  then show ?thesis by (auto simp: encode_layout_wcc_def isl_def)
qed

lemma encode_stateid_pads:
  assumes "length (other sid) \<le> 12"
  shows "encode_stateid sid = 
     and_then (encode_uint32 (seqid sid)) (\<lambda>sq.
       Inr (be_bytes 4 3 @ sq @ other sid @ replicate (12 - length (other sid)) 0))"
  using assms pack_I_nat [of 3]
  by (simp add: encode_stateid_def encode_uint32_def encode_fixed_opaque_def ljust_def)

text \<open>
  Claim C4 as stated (encode raises whenever a \<^verbatim>\<open>device_id\<close> is not exactly 16 bytes or an
  \<^verbatim>\<open>other\<close> is not exactly 12 bytes, and never pads) fails for a short \<^verbatim>\<open>other\<close>:
  \<^verbatim>\<open>_encode_stateid\<close> pads it with \<^verbatim>\<open>ljust(12, b'\0')\<close> before \<^verbatim>\<open>_encode_fixed_opaque\<close> checks
  the length. A descriptor whose \<^verbatim>\<open>other\<close> is the three bytes 1, 2, 3 is encoded without an
  error, with nine zero bytes after them.
\<close>

theorem short_other_is_padded:
  "encode_layout_wcc []
     \<lparr>mirrors = [\<lparr>mirror_id = ''m1'', data_servers = [
        \<lparr>device_id = ''0123456789abcdef'', state_id = \<lparr>seqid = 1, other = [1, 2, 3]\<rparr>,
         file_handles = [], attributes = Map.empty\<rparr>]\<rparr>]\<rparr> =
   Inr [0, 0, 0, 1, 0, 0, 0, 1, 0, 0, 0, 2, 109, 49, 0, 0, 0, 0, 0, 1, 0,
        0, 0, 2, 48, 49, 50, 51, 52, 53, 54, 55, 56, 57, 97, 98, 99, 100,
        101, 102, 0, 0, 0, 3, 0, 0, 0, 1, 1, 2, 3, 0, 0, 0, 0, 0, 0, 0, 0,
        0, 0, 0, 0, 0, 0, 0, 0, 5, 0, 0, 0, 0]"
  by (simp add: enc_defs)

text \<open>
  Claim C4, amended: encode raises whenever some data server of the descriptor has a
  \<^verbatim>\<open>device_id\<close> whose encoding is not exactly 16 bytes or an \<^verbatim>\<open>other\<close> longer than 12 bytes, so
  nothing is ever cut to fit; an \<^verbatim>\<open>other\<close> of 12 bytes or fewer is accepted and written
  followed by zero bytes up to 12.
\<close>

theorem encode_fixed_width_contract:
  "(m \<in> set (mirrors layout) \<and> s \<in> set (data_servers m) \<and>
      (length (utf8_encode (device_id s)) \<noteq> 16 \<or> length (other (state_id s)) > 12)
    \<longrightarrow> (\<exists>e. encode_layout_wcc buf layout = Inl (Failed_to_encode_LAYOUT_WCC e))) \<and>
   (length (other sid) \<le> 12
    \<longrightarrow> encode_stateid sid =
          and_then (encode_uint32 (seqid sid)) (\<lambda>sq.
            Inr (be_bytes 4 3 @ sq @ other sid @ replicate (12 - length (other sid)) 0)))"
  using encode_layout_wcc_fails [of m layout s buf] encode_stateid_pads [of sid] by blast

theorem encode_fixed_width_contract_witness:
  "\<lparr>mirror_id = ''test_mirror'', data_servers = [
      \<lparr>device_id = ''test_device'',
       state_id = \<lparr>seqid = 1, other = utf8_encode ''test_state_id''\<rparr>,
       file_handles = [''handle1''], attributes = [''size'' \<mapsto> 1024]\<rparr>]\<rparr>
     \<in> set (mirrors \<lparr>mirrors = [\<lparr>mirror_id = ''test_mirror'', data_servers = [
      \<lparr>device_id = ''test_device'',
       state_id = \<lparr>seqid = 1, other = utf8_encode ''test_state_id''\<rparr>,
       file_handles = [''handle1''], attributes = [''size'' \<mapsto> 1024]\<rparr>]\<rparr>]\<rparr>) \<and>
   length (utf8_encode ''test_device'') \<noteq> 16 \<and>
   (\<exists>e. encode_layout_wcc [] \<lparr>mirrors = [\<lparr>mirror_id = ''test_mirror'', data_servers = [
      \<lparr>device_id = ''test_device'',
       state_id = \<lparr>seqid = 1, other = utf8_encode ''test_state_id''\<rparr>,
       file_handles = [''handle1''], attributes = [''size'' \<mapsto> 1024]\<rparr>]\<rparr>]\<rparr>
      = Inl (Failed_to_encode_LAYOUT_WCC e)) \<and>
   length (other \<lparr>seqid = 1, other = [1, 2, 3]\<rparr>) \<le> 12 \<and>
   encode_stateid \<lparr>seqid = 1, other = [1, 2, 3]\<rparr> =
     Inr [0, 0, 0, 3, 0, 0, 0, 1, 1, 2, 3, 0, 0, 0, 0, 0, 0, 0, 0, 0]"
  using encode_fixed_width_contract
    [of "\<lparr>mirror_id = ''test_mirror'', data_servers = [
      \<lparr>device_id = ''test_device'',
       state_id = \<lparr>seqid = 1, other = utf8_encode ''test_state_id''\<rparr>,
       file_handles = [''handle1''], attributes = [''size'' \<mapsto> 1024]\<rparr>]\<rparr>"
      "\<lparr>mirrors = [\<lparr>mirror_id = ''test_mirror'', data_servers = [
      \<lparr>device_id = ''test_device'',
       state_id = \<lparr>seqid = 1, other = utf8_encode ''test_state_id''\<rparr>,
       file_handles = [''handle1''], attributes = [''size'' \<mapsto> 1024]\<rparr>]\<rparr>]\<rparr>"
      "\<lparr>device_id = ''test_device'',
       state_id = \<lparr>seqid = 1, other = utf8_encode ''test_state_id''\<rparr>,
       file_handles = [''handle1''], attributes = [''size'' \<mapsto> 1024]\<rparr>"
      "[]" "\<lparr>seqid = 1, other = [1, 2, 3]\<rparr>"]
  by (simp add: utf8_encode_def encode_uint32_def pack_I_def be_bytes_4 replicate_numeral_Cons)

section \<open>Codec: truncated input\<close>



lemma cut_input_simps [simp]:
  "offset (cut_input m self) = offset self"
  "wire_data (cut_input m self) = take m (wire_data self)"
  "cut_input m (self\<lparr>offset := k\<rparr>) = (cut_input m self)\<lparr>offset := k\<rparr>"
  by (simp_all add: cut_input_def)





























section \<open>Codec: decoding what was encoded\<close>

lemma decodes_toI:
  "(\<And>pre post. f \<lparr>wire_data = pre @ b @ post, offset = length pre\<rparr> =
        Inr (x, \<lparr>wire_data = pre @ b @ post, offset = length pre + length b\<rparr>)) \<Longrightarrow>
   decodes_to f b x"
  by (simp add: decodes_to_def)

lemma decodes_toD:
  "decodes_to f b x \<Longrightarrow> f \<lparr>wire_data = pre @ b @ post, offset = length pre\<rparr> =
        Inr (x, \<lparr>wire_data = pre @ b @ post, offset = length pre + length b\<rparr>)"
  by (simp add: decodes_to_def)

lemma dt_read_bytes: "decodes_to (\<lambda>self. read_bytes self (length b)) b b"
  by (rule decodes_toI) (simp add: read_bytes_def)

lemma dt_skip_bytes: "decodes_to (\<lambda>self. skip_bytes self (length b)) b ()"
  by (rule decodes_toI) (simp add: skip_bytes_def)

lemma dt_return: "decodes_to (\<lambda>self. Inr (c, self)) [] c"
  by (rule decodes_toI) simp

lemma dt_bind:
  assumes f: "decodes_to f b1 x" and g: "decodes_to (g x) b2 y"
  shows "decodes_to (\<lambda>self. and_then (f self) (\<lambda>(x, self). g x self)) (b1 @ b2) y"
proof (rule decodes_toI)
  fix pre post
  have 1: "f \<lparr>wire_data = pre @ (b1 @ b2) @ post, offset = length pre\<rparr> =
        Inr (x, \<lparr>wire_data = pre @ (b1 @ b2) @ post, offset = length pre + length b1\<rparr>)"
    using decodes_toD [OF f, of pre "b2 @ post"] by simp
  have 2: "g x \<lparr>wire_data = pre @ (b1 @ b2) @ post, offset = length pre + length b1\<rparr> =
        Inr (y, \<lparr>wire_data = pre @ (b1 @ b2) @ post, offset = length pre + length (b1 @ b2)\<rparr>)"
    using decodes_toD [OF g, of "pre @ b1" post] by (simp add: add.assoc)
  show "and_then (f \<lparr>wire_data = pre @ (b1 @ b2) @ post, offset = length pre\<rparr>)
          (\<lambda>(x, self). g x self) =
        Inr (y, \<lparr>wire_data = pre @ (b1 @ b2) @ post, offset = length pre + length (b1 @ b2)\<rparr>)"
    unfolding 1 using 2 by simp
qed

lemma dt_bind_return:
  assumes "decodes_to f b x"
  shows "decodes_to (\<lambda>self. and_then (f self) (\<lambda>(x, self). Inr (h x, self))) b (h x)"
  using dt_bind [OF assms, of "\<lambda>x self. Inr (h x, self)" "[]" "h x"] dt_return [of "h x"]
  by simp

lemma dt_decode_uint32:
  assumes "v < 2 ^ 32"
  shows "decodes_to decode_uint32 (be_bytes 4 v) v"
proof -
  have "decodes_to (\<lambda>self. read_bytes self (length (be_bytes 4 v))) (be_bytes 4 v) (be_bytes 4 v)"
    by (rule dt_read_bytes)
  then have "decodes_to (\<lambda>self. and_then (read_bytes self 4) (\<lambda>(b, self). Inr (unpack_I b, self)))
               (be_bytes 4 v) (unpack_I (be_bytes 4 v))"
    using dt_bind_return [of "\<lambda>self. read_bytes self 4" "be_bytes 4 v" "be_bytes 4 v" unpack_I]
    by simp
  then show ?thesis
    by (simp add: decode_uint32_def [abs_def] unpack_I_be_bytes [OF assms])
qed

lemma dt_decode_uint64:
  assumes "v < 2 ^ 64"
  shows "decodes_to decode_uint64 (be_bytes 8 v) v"
proof -
  have "decodes_to (\<lambda>self. read_bytes self (length (be_bytes 8 v))) (be_bytes 8 v) (be_bytes 8 v)"
    by (rule dt_read_bytes)
  then have "decodes_to (\<lambda>self. and_then (read_bytes self 8) (\<lambda>(b, self). Inr (unpack_Q b, self)))
               (be_bytes 8 v) (unpack_Q (be_bytes 8 v))"
    using dt_bind_return [of "\<lambda>self. read_bytes self 8" "be_bytes 8 v" "be_bytes 8 v" unpack_Q]
    by simp
  then show ?thesis
    by (simp add: decode_uint64_def [abs_def] unpack_Q_be_bytes [OF assms])
qed

lemma pack_I_Inr: "pack_I v = Inr b \<longleftrightarrow> 0 \<le> v \<and> v < 2 ^ 32 \<and> b = be_bytes 4 (nat v)"
  by (auto simp: pack_I_def)

lemma pack_Q_Inr: "pack_Q v = Inr b \<longleftrightarrow> 0 \<le> v \<and> v < 2 ^ 64 \<and> b = be_bytes 8 (nat v)"
  by (auto simp: pack_Q_def)

lemma utf8_decode_encode: "valid_utf8 (utf8_encode s) \<Longrightarrow> utf8_decode (utf8_encode s) = Inr s"
proof -
  have "char_of (unat (of_nat (of_char c) :: byte)) = c" for c
    by (simp add: unat_of_nat)
  then have "map (\<lambda>x. char_of (unat x)) (utf8_encode s) = s"
    by (simp add: utf8_encode_def o_def)
  then show "valid_utf8 (utf8_encode s) \<Longrightarrow> utf8_decode (utf8_encode s) = Inr s"
    by (simp add: utf8_decode_def)
qed

lemma decode_uint32_at:
  "v < 2 ^ 32 \<Longrightarrow>
   decode_uint32 \<lparr>wire_data = pre @ be_bytes 4 v @ post, offset = length pre\<rparr> =
     Inr (v, \<lparr>wire_data = pre @ be_bytes 4 v @ post, offset = length pre + 4\<rparr>)"
  using decodes_toD [OF dt_decode_uint32, of v pre post] by simp

lemma read_bytes_at:
  "read_bytes \<lparr>wire_data = pre @ b @ post, offset = length pre\<rparr> (length b) =
     Inr (b, \<lparr>wire_data = pre @ b @ post, offset = length pre + length b\<rparr>)"
  by (simp add: read_bytes_def)

lemma skip_bytes_at:
  "skip_bytes \<lparr>wire_data = pre @ b @ post, offset = length pre\<rparr> (length b) =
     Inr ((), \<lparr>wire_data = pre @ b @ post, offset = length pre + length b\<rparr>)"
  by (simp add: skip_bytes_def)

lemma encode_variable_opaque_Inr:
  "encode_variable_opaque d = Inr b \<longleftrightarrow>
     length d < 2 ^ 32 \<and>
     b = be_bytes 4 (length d) @ d @ replicate (calculate (length d)) 0"
  by (auto simp: encode_variable_opaque_def encode_uint32_def and_then_eq_Inr pack_I_Inr)

lemma dt_decode_variable_opaque:
  assumes "encode_variable_opaque d = Inr b"
  shows "decodes_to decode_variable_opaque b d"
proof (rule decodes_toI)
  fix pre post
  let ?pad = "replicate (calculate (length d)) (0::byte)"
  from assms have n: "length d < 2 ^ 32" and b: "b = be_bytes 4 (length d) @ d @ ?pad"
    by (simp_all add: encode_variable_opaque_Inr)
  have 1: "decode_uint32 \<lparr>wire_data = pre @ b @ post, offset = length pre\<rparr> =
     Inr (length d, \<lparr>wire_data = pre @ b @ post, offset = length pre + 4\<rparr>)"
    unfolding b using decode_uint32_at [OF n, of pre "d @ ?pad @ post"] by simp
  have 2: "read_bytes \<lparr>wire_data = pre @ b @ post, offset = length pre + 4\<rparr> (length d) =
     Inr (d, \<lparr>wire_data = pre @ b @ post, offset = length pre + 4 + length d\<rparr>)"
    unfolding b using read_bytes_at [of "pre @ be_bytes 4 (length d)" d "?pad @ post"] by simp
  have 3: "skip_bytes \<lparr>wire_data = pre @ b @ post, offset = length pre + 4 + length d\<rparr>
        (calculate (length d)) =
     Inr ((), \<lparr>wire_data = pre @ b @ post, offset = length pre + length b\<rparr>)"
    unfolding b using skip_bytes_at [of "pre @ be_bytes 4 (length d) @ d" ?pad post]
    by (simp add: add.assoc)
  show "decode_variable_opaque \<lparr>wire_data = pre @ b @ post, offset = length pre\<rparr> =
        Inr (d, \<lparr>wire_data = pre @ b @ post, offset = length pre + length b\<rparr>)"
    unfolding decode_variable_opaque_def 1 by (simp add: 2 3)
qed

lemma encode_string_opaque: "encode_string v = encode_variable_opaque (utf8_encode v)"
  by (simp add: encode_string_def encode_variable_opaque_def Let_def)

lemma decode_string_opaque:
  "decode_string self =
     and_then (decode_variable_opaque self) (\<lambda>(d, self).
       and_then (utf8_decode d) (\<lambda>s. Inr (s, self)))"
  by (simp add: decode_string_def decode_variable_opaque_def and_then_def
      split: sum.splits prod.splits)

lemma dt_decode_string:
  assumes "encode_string s = Inr b" and "valid_utf8 (utf8_encode s)"
  shows "decodes_to decode_string b s"
proof (rule decodes_toI)
  fix pre post
  from assms(1) have "decodes_to decode_variable_opaque b (utf8_encode s)"
    unfolding encode_string_opaque by (rule dt_decode_variable_opaque)
  from decodes_toD [OF this, of pre post] utf8_decode_encode [OF assms(2)]
  show "decode_string \<lparr>wire_data = pre @ b @ post, offset = length pre\<rparr> =
        Inr (s, \<lparr>wire_data = pre @ b @ post, offset = length pre + length b\<rparr>)"
    by (simp add: decode_string_opaque)
qed

lemma dt_tagged:
  assumes "decodes_to f b x" and that: "tag < 2 ^ 32"
  shows "decodes_to (\<lambda>self. and_then (decode_uint32 self) (\<lambda>(type_id, self).
           if type_id \<noteq> tag then Inl (err type_id) else
           and_then (f self) (\<lambda>(d, self). Inr (h d, self))))
         (be_bytes 4 tag @ b) (h x)"
proof -
  have "decodes_to (\<lambda>self. if tag \<noteq> tag then Inl (err tag) else
           and_then (f self) (\<lambda>(d, self). Inr (h d, self))) b (h x)"
    using dt_bind_return [OF assms(1), of h] by simp
  with dt_decode_uint32 [OF that]
  show ?thesis by (rule dt_bind [where g = "\<lambda>type_id self. if type_id \<noteq> tag then Inl (err type_id) else
           and_then (f self) (\<lambda>(d, self). Inr (h d, self))"])
qed

lemma encode_tag: "tag < 2 ^ 32 \<Longrightarrow> encode_uint32 (int tag) = Inr (be_bytes 4 tag)"
  by (simp add: encode_uint32_def pack_I_def)

lemma dt_decode_filehandle:
  assumes "encode_filehandle h = Inr b"
  shows "decodes_to decode_filehandle b (hex (utf8_encode h))"
proof -
  from assms obtain b' where b': "encode_variable_opaque (utf8_encode h) = Inr b'"
    and b: "b = be_bytes 4 4 @ b'"
    using encode_tag [of 4] by (auto simp: encode_filehandle_def and_then_eq_Inr)
  have "decodes_to decode_variable_opaque b' (utf8_encode h)"
    using b' by (rule dt_decode_variable_opaque)
  from dt_tagged [OF this, where tag = 4 and h = hex and err = Invalid_file_handle_type] show ?thesis
    unfolding b by (simp add: decode_filehandle_def [abs_def])
qed

lemma dt_decode_fixed_opaque:
  "length d = n \<Longrightarrow> decodes_to (\<lambda>self. decode_fixed_opaque self n) d d"
  unfolding decode_fixed_opaque_def using dt_read_bytes [of d] by simp

lemma dt_decode_deviceid:
  assumes "encode_deviceid d = Inr b"
  shows "decodes_to decode_deviceid b (hex (utf8_encode d))"
proof -
  from assms have l: "length (utf8_encode d) = 16" and b: "b = be_bytes 4 2 @ utf8_encode d"
    using encode_tag [of 2]
    by (auto simp: encode_deviceid_def and_then_eq_Inr encode_fixed_opaque_def split: if_splits)
  from dt_tagged [OF dt_decode_fixed_opaque [OF l], where tag = 2 and h = hex and err = Invalid_device_ID_type] show ?thesis
    unfolding b by (simp add: decode_deviceid_def [abs_def])
qed

lemma dt_tag_check:
  assumes "decodes_to f b x" and "tag < 2 ^ 32"
  shows "decodes_to (\<lambda>self. and_then (decode_uint32 self) (\<lambda>(type_id, self).
           if type_id \<noteq> tag then Inl (err type_id) else f self))
         (be_bytes 4 tag @ b) x"
proof -
  have "decodes_to (\<lambda>self. if tag \<noteq> tag then Inl (err tag) else f self) b x"
    using assms(1) by simp
  with dt_decode_uint32 [OF assms(2)]
  show ?thesis
    by (rule dt_bind [where g = "\<lambda>type_id self. if type_id \<noteq> tag then Inl (err type_id) else f self"])
qed

lemma length_ljust: "length (ljust n c b) = max n (length b)"
  by (simp add: ljust_def)

lemma dt_decode_stateid:
  assumes "encode_stateid sid = Inr b"
  shows "decodes_to decode_stateid b \<lparr>seqid = seqid sid, other = ljust 12 0 (other sid)\<rparr>"
proof -
  let ?o = "ljust 12 0 (other sid)"
  from assms have sq: "0 \<le> seqid sid" "seqid sid < 2 ^ 32" and l: "length ?o = 12"
    and b: "b = be_bytes 4 3 @ be_bytes 4 (nat (seqid sid)) @ ?o"
    using encode_tag [of 3]
    by (auto simp: encode_stateid_def and_then_eq_Inr encode_fixed_opaque_def encode_uint32_def
        pack_I_Inr split: if_splits)
  have n: "nat (seqid sid) < 2 ^ 32" using sq by simp
  have "decodes_to (\<lambda>self. and_then (decode_fixed_opaque self 12) (\<lambda>(oth, self).
          Inr (\<lparr>seqid = int (nat (seqid sid)), other = oth\<rparr>, self))) ?o
        \<lparr>seqid = int (nat (seqid sid)), other = ?o\<rparr>"
    by (rule dt_bind_return [OF dt_decode_fixed_opaque [OF l]])
  with dt_decode_uint32 [OF n]
  have "decodes_to (\<lambda>self. and_then (decode_uint32 self) (\<lambda>(sq, self).
          and_then (decode_fixed_opaque self 12) (\<lambda>(oth, self).
          Inr (\<lparr>seqid = int sq, other = oth\<rparr>, self))))
        (be_bytes 4 (nat (seqid sid)) @ ?o) \<lparr>seqid = int (nat (seqid sid)), other = ?o\<rparr>"
    by (rule dt_bind [where g = "\<lambda>sq self. and_then (decode_fixed_opaque self 12) (\<lambda>(oth, self).
          Inr (\<lparr>seqid = int sq, other = oth\<rparr>, self))"])
  from dt_tag_check [OF this, where tag = 3 and err = Invalid_state_ID_type] sq show ?thesis
    unfolding b by (simp add: decode_stateid_def [abs_def])
qed

lemma dt_decode_each:
  assumes "\<And>x b. x \<in> set xs \<Longrightarrow> enc x = Inr b \<Longrightarrow> decodes_to f b (h x)"
    and "encode_each enc xs = Inr bs"
  shows "decodes_to (decode_each f (length xs)) bs (map h xs)"
  using assms
proof (induction xs arbitrary: bs)
  case Nil
  then show ?case using dt_return [of "[]"] by (simp add: decode_each.simps [abs_def])
next
  case (Cons a xs)
  from Cons.prems(2) obtain b1 b2 where a: "enc a = Inr b1" and r: "encode_each enc xs = Inr b2"
    and bs: "bs = b1 @ b2"
    by (auto simp: and_then_eq_Inr)
  have 1: "decodes_to f b1 (h a)" using Cons.prems(1) a by simp
  have "decodes_to (decode_each f (length xs)) b2 (map h xs)"
    using Cons.IH [OF _ r] Cons.prems(1) by simp
  then have 2: "decodes_to (\<lambda>self. and_then (decode_each f (length xs) self)
       (\<lambda>(ys, self). Inr (h a # ys, self))) b2 (h a # map h xs)"
    by (rule dt_bind_return)
  have "decodes_to (\<lambda>self. and_then (f self) (\<lambda>(x, self).
          and_then (decode_each f (length xs) self) (\<lambda>(ys, self). Inr (x # ys, self))))
        (b1 @ b2) (h a # map h xs)"
    using 1 2 by (rule dt_bind [where g = "\<lambda>x self.
          and_then (decode_each f (length xs) self) (\<lambda>(ys, self). Inr (x # ys, self))"])
  then show ?case unfolding bs by (simp add: decode_each.simps [abs_def])
qed

lemma dt_decode_array:
  assumes "\<And>x b. x \<in> set xs \<Longrightarrow> enc x = Inr b \<Longrightarrow> decodes_to f b (h x)"
    and "encode_array xs enc = Inr bs"
  shows "decodes_to (\<lambda>self. decode_array self f) bs (map h xs)"
proof -
  from assms(2) obtain body where n: "length xs < 2 ^ 32" and e: "encode_each enc xs = Inr body"
    and bs: "bs = be_bytes 4 (length xs) @ body"
    by (auto simp: encode_array_def and_then_eq_Inr encode_uint32_def pack_I_Inr)
  have "decodes_to (decode_each f (length xs)) body (map h xs)"
    using assms(1) e by (rule dt_decode_each)
  with dt_decode_uint32 [OF n]
  have "decodes_to (\<lambda>self. and_then (decode_uint32 self) (\<lambda>(len, self). decode_each f len self))
          (be_bytes 4 (length xs) @ body) (map h xs)"
    by (rule dt_bind [where g = "\<lambda>len self. decode_each f len self"])
  then show ?thesis unfolding bs decode_array_def .
qed

lemma dt_optional_uint64:
  assumes "c \<Longrightarrow> v < 2 ^ 64"
  shows "decodes_to (\<lambda>self. if c then and_then (decode_uint64 self) (\<lambda>(v, self). Inr (F v, self))
                            else Inr (A, self))
           (if c then be_bytes 8 v else []) (if c then F v else A)"
proof (cases c)
  case True
  then show ?thesis using dt_bind_return [OF dt_decode_uint64, of v F] assms by simp
next
  case False
  then show ?thesis using dt_return [of A] by simp
qed

lemma attribute_mask_bits:
  "nat (calculate_attribute_mask attrs) < 2 ^ 32"
  "nat (calculate_attribute_mask attrs) AND 1 \<noteq> 0 \<longleftrightarrow> ''size'' \<in> dom attrs"
  "nat (calculate_attribute_mask attrs) AND 2 \<noteq> 0 \<longleftrightarrow> ''mtime'' \<in> dom attrs"
  "0 \<le> calculate_attribute_mask attrs"
  by (simp_all add: calculate_attribute_mask_def Let_def)

lemma dt_decode_attributes:
  assumes "encode_attributes attrs = Inr b" and "dom attrs \<subseteq> {''size'', ''mtime''}"
  shows "decodes_to decode_attributes b attrs"
proof -
  let ?m = "nat (calculate_attribute_mask attrs)"
  let ?c1 = "?m AND 1 \<noteq> 0" and ?c2 = "?m AND 2 \<noteq> 0"
  define v1 where "v1 = nat (the (attrs ''size''))"
  define v2 where "v2 = nat (the (attrs ''mtime''))"
  note mb = attribute_mask_bits [of attrs]
  from assms(1) obtain sz mt where
    sz: "(case attrs ''size'' of Some v \<Rightarrow> encode_uint64 v | None \<Rightarrow> Inr []) = Inr sz"
    and mt: "(case attrs ''mtime'' of Some v \<Rightarrow> encode_uint64 v | None \<Rightarrow> Inr []) = Inr mt"
    and b: "b = be_bytes 4 5 @ be_bytes 4 ?m @ sz @ mt"
    using encode_tag [of 5] mb(4)
    by (auto simp: encode_attributes_def and_then_eq_Inr encode_uint32_def pack_I_Inr)
  have s1: "sz = (if ?c1 then be_bytes 8 v1 else [])" "?c1 \<Longrightarrow> v1 < 2 ^ 64"
    "?c1 \<Longrightarrow> attrs ''size'' = Some (int v1)" "\<not> ?c1 \<Longrightarrow> attrs ''size'' = None"
    using sz unfolding mb(2) v1_def
    by (auto simp: encode_uint64_def pack_Q_Inr split: option.splits)
  have s2: "mt = (if ?c2 then be_bytes 8 v2 else [])" "?c2 \<Longrightarrow> v2 < 2 ^ 64"
    "?c2 \<Longrightarrow> attrs ''mtime'' = Some (int v2)" "\<not> ?c2 \<Longrightarrow> attrs ''mtime'' = None"
    using mt unfolding mb(3) v2_def
    by (auto simp: encode_uint64_def pack_Q_Inr split: option.splits)
  let ?a1 = "if ?c1 then Map.empty(''size'' \<mapsto> int v1) else Map.empty"
  let ?a2 = "if ?c2 then ?a1(''mtime'' \<mapsto> int v2) else ?a1"
  have a2: "?a2 = attrs"
  proof (rule ext)
    fix k
    show "?a2 k = attrs k"
    proof (cases "k = ''size'' \<or> k = ''mtime''")
      case True
      then show ?thesis using s1(3,4) s2(3,4) by auto
    next
      case False
      then have "attrs k = None" using assms(2) by auto
      with False show ?thesis by simp
    qed
  qed
  have d1: "decodes_to (\<lambda>self. if ?c1
       then and_then (decode_uint64 self) (\<lambda>(v, self). Inr (Map.empty(''size'' \<mapsto> int v), self))
       else Inr (Map.empty, self)) sz ?a1"
    unfolding s1(1) by (rule dt_optional_uint64) (rule s1(2))
  have d2: "decodes_to (\<lambda>self. if ?c2
       then and_then (decode_uint64 self) (\<lambda>(v, self). Inr (?a1(''mtime'' \<mapsto> int v), self))
       else Inr (?a1, self)) mt ?a2"
    unfolding s2(1) by (rule dt_optional_uint64) (rule s2(2))
  have d3: "decodes_to (\<lambda>self. and_then (if ?c1
       then and_then (decode_uint64 self) (\<lambda>(v, self). Inr (Map.empty(''size'' \<mapsto> int v), self))
       else Inr (Map.empty, self)) (\<lambda>(attrs, self). if ?c2
       then and_then (decode_uint64 self) (\<lambda>(v, self). Inr (attrs(''mtime'' \<mapsto> int v), self))
       else Inr (attrs, self))) (sz @ mt) ?a2"
    using d1 d2 by (rule dt_bind [where g = "\<lambda>attrs self. if ?c2
       then and_then (decode_uint64 self) (\<lambda>(v, self). Inr (attrs(''mtime'' \<mapsto> int v), self))
       else Inr (attrs, self)"])
  have d4: "decodes_to (\<lambda>self. and_then (decode_uint32 self) (\<lambda>(m, self).
       and_then (if m AND 1 \<noteq> 0
       then and_then (decode_uint64 self) (\<lambda>(v, self). Inr (Map.empty(''size'' \<mapsto> int v), self))
       else Inr (Map.empty, self)) (\<lambda>(attrs, self). if m AND 2 \<noteq> 0
       then and_then (decode_uint64 self) (\<lambda>(v, self). Inr (attrs(''mtime'' \<mapsto> int v), self))
       else Inr (attrs, self)))) (be_bytes 4 ?m @ sz @ mt) ?a2"
    using dt_decode_uint32 [OF mb(1)] d3
    by (rule dt_bind [where g = "\<lambda>m self. and_then (if m AND 1 \<noteq> 0
       then and_then (decode_uint64 self) (\<lambda>(v, self). Inr (Map.empty(''size'' \<mapsto> int v), self))
       else Inr (Map.empty, self)) (\<lambda>(attrs, self). if m AND 2 \<noteq> 0
       then and_then (decode_uint64 self) (\<lambda>(v, self). Inr (attrs(''mtime'' \<mapsto> int v), self))
       else Inr (attrs, self))"])
  from dt_tag_check [OF d4, where tag = 5 and err = Invalid_attribute_type]
  show ?thesis
    unfolding b a2 by (simp add: decode_attributes_def [abs_def])
qed

lemma dt_decode_data_server:
  assumes "encode_data_server s = Inr b" and "dom (attributes s) \<subseteq> {''size'', ''mtime''}"
  shows "decodes_to decode_data_server b
     \<lparr>device_id = hex (utf8_encode (device_id s)),
      state_id = \<lparr>seqid = seqid (state_id s), other = ljust 12 0 (other (state_id s))\<rparr>,
      file_handles = map (\<lambda>h. hex (utf8_encode h)) (file_handles s),
      attributes = attributes s\<rparr>"
proof -
  let ?dev = "hex (utf8_encode (device_id s))"
  let ?st = "\<lparr>seqid = seqid (state_id s), other = ljust 12 0 (other (state_id s))\<rparr>"
  let ?hs = "map (\<lambda>h. hex (utf8_encode h)) (file_handles s)"
  from assms(1) obtain dev st hs ats where
    dev: "encode_deviceid (device_id s) = Inr dev"
    and st: "encode_stateid (state_id s) = Inr st"
    and hs: "encode_array (file_handles s) encode_filehandle = Inr hs"
    and ats: "encode_attributes (attributes s) = Inr ats"
    and b: "b = dev @ st @ hs @ ats"
    by (auto simp: encode_data_server_def and_then_eq_Inr)
  have d4: "decodes_to (\<lambda>self. and_then (decode_attributes self) (\<lambda>(attrs, self).
       Inr (\<lparr>device_id = ?dev, state_id = ?st, file_handles = ?hs, attributes = attrs\<rparr>, self)))
     ats \<lparr>device_id = ?dev, state_id = ?st, file_handles = ?hs, attributes = attributes s\<rparr>"
    by (rule dt_bind_return [OF dt_decode_attributes [OF ats assms(2)],
          where h = "\<lambda>attrs. \<lparr>device_id = ?dev, state_id = ?st, file_handles = ?hs,
            attributes = attrs\<rparr>"])
  have d3: "decodes_to (\<lambda>self. and_then (decode_array self decode_filehandle) (\<lambda>(handles, self).
       and_then (decode_attributes self) (\<lambda>(attrs, self).
       Inr (\<lparr>device_id = ?dev, state_id = ?st, file_handles = handles, attributes = attrs\<rparr>, self))))
     (hs @ ats) \<lparr>device_id = ?dev, state_id = ?st, file_handles = ?hs, attributes = attributes s\<rparr>"
    using dt_decode_array [of "file_handles s" encode_filehandle decode_filehandle
        "\<lambda>h. hex (utf8_encode h)" hs, OF dt_decode_filehandle hs] d4
    by (rule dt_bind [where g = "\<lambda>handles self.
       and_then (decode_attributes self) (\<lambda>(attrs, self).
       Inr (\<lparr>device_id = ?dev, state_id = ?st, file_handles = handles, attributes = attrs\<rparr>, self))"])
  have d2: "decodes_to (\<lambda>self. and_then (decode_stateid self) (\<lambda>(st, self).
       and_then (decode_array self decode_filehandle) (\<lambda>(handles, self).
       and_then (decode_attributes self) (\<lambda>(attrs, self).
       Inr (\<lparr>device_id = ?dev, state_id = st, file_handles = handles, attributes = attrs\<rparr>, self)))))
     (st @ hs @ ats) \<lparr>device_id = ?dev, state_id = ?st, file_handles = ?hs, attributes = attributes s\<rparr>"
    using dt_decode_stateid [OF st] d3
    by (rule dt_bind [where g = "\<lambda>st self.
       and_then (decode_array self decode_filehandle) (\<lambda>(handles, self).
       and_then (decode_attributes self) (\<lambda>(attrs, self).
       Inr (\<lparr>device_id = ?dev, state_id = st, file_handles = handles, attributes = attrs\<rparr>, self)))"])
  have d1: "decodes_to (\<lambda>self. and_then (decode_deviceid self) (\<lambda>(dev, self).
       and_then (decode_stateid self) (\<lambda>(st, self).
       and_then (decode_array self decode_filehandle) (\<lambda>(handles, self).
       and_then (decode_attributes self) (\<lambda>(attrs, self).
       Inr (\<lparr>device_id = dev, state_id = st, file_handles = handles, attributes = attrs\<rparr>, self))))))
     (dev @ st @ hs @ ats) \<lparr>device_id = ?dev, state_id = ?st, file_handles = ?hs, attributes = attributes s\<rparr>"
    using dt_decode_deviceid [OF dev] d2
    by (rule dt_bind [where g = "\<lambda>dev self.
       and_then (decode_stateid self) (\<lambda>(st, self).
       and_then (decode_array self decode_filehandle) (\<lambda>(handles, self).
       and_then (decode_attributes self) (\<lambda>(attrs, self).
       Inr (\<lparr>device_id = dev, state_id = st, file_handles = handles, attributes = attrs\<rparr>, self))))"])
  then show ?thesis unfolding b decode_data_server_def [abs_def] .
qed

lemma hex_data_server_eq:
  "length (other (state_id s)) = 12 \<Longrightarrow>
   \<lparr>device_id = hex (utf8_encode (device_id s)),
      state_id = \<lparr>seqid = seqid (state_id s), other = ljust 12 0 (other (state_id s))\<rparr>,
      file_handles = map (\<lambda>h. hex (utf8_encode h)) (file_handles s),
      attributes = attributes s\<rparr> = hex_data_server s"
  by (simp add: hex_data_server_def ljust_def)

lemma dt_decode_data_server_wf:
  assumes "encode_data_server s = Inr b" and "wf_data_server s"
  shows "decodes_to decode_data_server b (hex_data_server s)"
  using dt_decode_data_server [OF assms(1)] assms(2) hex_data_server_eq [of s]
  by (simp add: wf_data_server_def wf_attributes_def)

lemma dt_decode_mirror:
  assumes "encode_mirror m = Inr b" and "wf_mirror m"
  shows "decodes_to decode_mirror b (hex_mirror m)"
proof -
  from assms(1) obtain mid servers where
    mid: "encode_string (mirror_id m) = Inr mid"
    and servers: "encode_array (data_servers m) encode_data_server = Inr servers"
    and b: "b = mid @ servers"
    by (auto simp: encode_mirror_def and_then_eq_Inr)
  have v: "valid_utf8 (utf8_encode (mirror_id m))" using assms(2) by (simp add: wf_mirror_def)
  have el: "\<And>x b. x \<in> set (data_servers m) \<Longrightarrow> encode_data_server x = Inr b \<Longrightarrow>
      decodes_to decode_data_server b (hex_data_server x)"
    using assms(2) by (simp add: wf_mirror_def dt_decode_data_server_wf)
  have d2: "decodes_to (\<lambda>self. and_then (decode_array self decode_data_server) (\<lambda>(servers, self).
       Inr (\<lparr>mirror_id = mirror_id m, data_servers = servers\<rparr>, self)))
     servers \<lparr>mirror_id = mirror_id m, data_servers = map hex_data_server (data_servers m)\<rparr>"
    by (rule dt_bind_return [OF dt_decode_array [OF el servers],
          where h = "\<lambda>servers. \<lparr>mirror_id = mirror_id m, data_servers = servers\<rparr>"])
  have "decodes_to (\<lambda>self. and_then (decode_string self) (\<lambda>(mid, self).
       and_then (decode_array self decode_data_server) (\<lambda>(servers, self).
       Inr (\<lparr>mirror_id = mid, data_servers = servers\<rparr>, self))))
     (mid @ servers) \<lparr>mirror_id = mirror_id m, data_servers = map hex_data_server (data_servers m)\<rparr>"
    using dt_decode_string [OF mid v] d2
    by (rule dt_bind [where g = "\<lambda>mid self.
       and_then (decode_array self decode_data_server) (\<lambda>(servers, self).
       Inr (\<lparr>mirror_id = mid, data_servers = servers\<rparr>, self))"])
  moreover have "\<lparr>mirror_id = mirror_id m, data_servers = map hex_data_server (data_servers m)\<rparr>
      = hex_mirror m"
    by (cases m) (simp add: hex_mirror_def)
  ultimately show ?thesis unfolding b decode_mirror_def [abs_def] by simp
qed

lemma decode_layout_wcc_encoded:
  assumes "encode_layout_wcc [] d = Inr b" and "well_formed d"
  shows "decode_layout_wcc (new_XDRDecoder b) =
         Inr (hex_layout d, \<lparr>wire_data = b, offset = length b\<rparr>)"
proof -
  from assms(1) obtain ms where ms: "encode_array (mirrors d) encode_mirror = Inr ms"
    and b: "b = be_bytes 4 1 @ ms"
    using encode_tag [of 1]
    by (auto simp: encode_layout_wcc_def and_then_eq_Inr split: sum.splits)
  have el: "\<And>x b. x \<in> set (mirrors d) \<Longrightarrow> encode_mirror x = Inr b \<Longrightarrow>
      decodes_to decode_mirror b (hex_mirror x)"
    using assms(2) by (simp add: well_formed_def dt_decode_mirror)
  have "decodes_to (\<lambda>self. and_then (decode_array self decode_mirror) (\<lambda>(ms, self).
           Inr (\<lparr>mirrors = ms\<rparr>, self))) ms \<lparr>mirrors = map hex_mirror (mirrors d)\<rparr>"
    by (rule dt_bind_return [OF dt_decode_array [OF el ms], where h = "\<lambda>ms. \<lparr>mirrors = ms\<rparr>"])
  from decodes_toD [OF dt_tag_check [OF this, where tag = 1 and err = Invalid_type_identifier],
      of "[]" "[]"]
  show ?thesis
    unfolding b by (simp add: decode_layout_wcc_def new_XDRDecoder_def hex_layout_def)
qed

lemma encode_each_succeeds:
  "(\<And>x. x \<in> set xs \<Longrightarrow> \<exists>b. enc x = Inr b) \<Longrightarrow> \<exists>bs. encode_each enc xs = Inr bs"
proof (induction xs)
  case Nil
  then show ?case by simp
next
  case (Cons a xs)
  from Cons.prems obtain b where "enc a = Inr b" by auto
  moreover from Cons obtain bs where "encode_each enc xs = Inr bs" by auto
  ultimately show ?case by simp
qed

lemma encode_array_succeeds:
  assumes "length xs < 2 ^ 32" and "\<And>x. x \<in> set xs \<Longrightarrow> \<exists>b. enc x = Inr b"
  shows "\<exists>bs. encode_array xs enc = Inr bs"
proof -
  from encode_each_succeeds [of xs enc] assms(2) obtain body where "encode_each enc xs = Inr body"
    by blast
  then show ?thesis using assms(1)
    by (simp add: encode_array_def encode_uint32_def pack_I_def)
qed

lemma encode_filehandle_succeeds:
  "length (utf8_encode h) < 2 ^ 32 \<Longrightarrow> \<exists>b. encode_filehandle h = Inr b"
  by (simp add: encode_filehandle_def encode_variable_opaque_def encode_uint32_def pack_I_def)

lemma encode_attributes_succeeds:
  assumes "wf_attributes attrs"
  shows "\<exists>b. encode_attributes attrs = Inr b"
proof -
  have m: "\<exists>b. encode_uint32 (calculate_attribute_mask attrs) = Inr b"
    by (simp add: encode_uint32_def pack_I_def calculate_attribute_mask_def Let_def)
  have v: "\<exists>b. (case attrs k of Some v \<Rightarrow> encode_uint64 v | None \<Rightarrow> Inr []) = Inr b" for k
    using assms by (auto simp: wf_attributes_def encode_uint64_def pack_Q_def split: option.splits)
  from m obtain mb where mb: "encode_uint32 (calculate_attribute_mask attrs) = Inr mb" by auto
  from v [of "''size''"] obtain sz where
    sz: "(case attrs ''size'' of Some v \<Rightarrow> encode_uint64 v | None \<Rightarrow> Inr []) = Inr sz" by auto
  from v [of "''mtime''"] obtain mt where
    mt: "(case attrs ''mtime'' of Some v \<Rightarrow> encode_uint64 v | None \<Rightarrow> Inr []) = Inr mt" by auto
  have "encode_uint32 5 = Inr (be_bytes 4 5)" using encode_tag [of 5] by simp
  then show ?thesis
    unfolding encode_attributes_def mb sz mt by simp
qed

lemma encode_data_server_succeeds:
  assumes "wf_data_server s"
  shows "\<exists>b. encode_data_server s = Inr b"
proof -
  from assms have "\<exists>b. encode_deviceid (device_id s) = Inr b"
    by (simp add: wf_data_server_def encode_deviceid_def encode_uint32_def pack_I_def
        encode_fixed_opaque_def)
  moreover from assms have "\<exists>b. encode_stateid (state_id s) = Inr b"
    by (simp add: wf_data_server_def encode_stateid_def encode_uint32_def pack_I_def
        encode_fixed_opaque_def ljust_def)
  moreover from assms have "\<exists>b. encode_array (file_handles s) encode_filehandle = Inr b"
    by (intro encode_array_succeeds encode_filehandle_succeeds)
      (simp_all add: wf_data_server_def)
  moreover from assms have "\<exists>b. encode_attributes (attributes s) = Inr b"
    by (intro encode_attributes_succeeds) (simp add: wf_data_server_def)
  ultimately show ?thesis by (auto simp: encode_data_server_def)
qed

lemma encode_mirror_succeeds:
  assumes "wf_mirror m"
  shows "\<exists>b. encode_mirror m = Inr b"
proof -
  from assms have "\<exists>b. encode_string (mirror_id m) = Inr b"
    by (simp add: wf_mirror_def encode_string_def encode_uint32_def pack_I_def Let_def)
  moreover from assms have "\<exists>b. encode_array (data_servers m) encode_data_server = Inr b"
    by (intro encode_array_succeeds encode_data_server_succeeds)
      (simp_all add: wf_mirror_def)
  ultimately show ?thesis by (auto simp: encode_mirror_def)
qed

lemma encode_layout_wcc_succeeds:
  assumes "well_formed d"
  shows "\<exists>b. encode_layout_wcc [] d = Inr b"
proof -
  from assms have "\<exists>b. encode_array (mirrors d) encode_mirror = Inr b"
    by (intro encode_array_succeeds encode_mirror_succeeds)
      (simp_all add: well_formed_def)
  then show ?thesis
    by (auto simp: encode_layout_wcc_def encode_uint32_def pack_I_def)
qed

lemma length_hex: "length (hex b) = 2 * length b"
  by (induction b) (simp_all add: hex_def)

lemma length_utf8_encode: "length (utf8_encode s) = length s"
  by (simp add: utf8_encode_def)

lemma hex_data_server_neq: "wf_data_server s \<Longrightarrow> hex_data_server s \<noteq> s"
proof
  assume wf: "wf_data_server s" and "hex_data_server s = s"
  then have "device_id (hex_data_server s) = device_id s" by simp
  then have "length (hex (utf8_encode (device_id s))) = length (device_id s)"
    by (simp add: hex_data_server_def)
  with wf show False
    by (simp add: length_hex length_utf8_encode wf_data_server_def)
qed

lemma map_eq_self: "map f xs = xs \<longleftrightarrow> (\<forall>x \<in> set xs. f x = x)"
  by (induction xs) auto

lemma hex_mirror_eq: "wf_mirror m \<Longrightarrow> hex_mirror m = m \<longleftrightarrow> data_servers m = []"
proof
  assume wf: "wf_mirror m" and "hex_mirror m = m"
  then have "data_servers (hex_mirror m) = data_servers m" by simp
  then have "map hex_data_server (data_servers m) = data_servers m"
    by (simp add: hex_mirror_def)
  then have "\<forall>s \<in> set (data_servers m). hex_data_server s = s" by (simp add: map_eq_self)
  with wf have "set (data_servers m) = {}"
    using hex_data_server_neq by (auto simp: wf_mirror_def)
  then show "data_servers m = []" by simp
next
  assume "data_servers m = []"
  then show "hex_mirror m = m" by (simp add: hex_mirror_def)
qed

lemma hex_layout_eq:
  assumes "well_formed d"
  shows "hex_layout d = d \<longleftrightarrow> (\<forall>m \<in> set (mirrors d). data_servers m = [])"
proof -
  have "hex_layout d = d \<longleftrightarrow> map hex_mirror (mirrors d) = mirrors d"
    by (cases d) (simp add: hex_layout_def)
  also have "\<dots> \<longleftrightarrow> (\<forall>m \<in> set (mirrors d). hex_mirror m = m)" by (rule map_eq_self)
  also have "\<dots> \<longleftrightarrow> (\<forall>m \<in> set (mirrors d). data_servers m = [])"
    using assms hex_mirror_eq by (auto simp: well_formed_def)
  finally show ?thesis .
qed

text \<open>
  The encoding of the descriptor of the example in XDR-Encode-Decode.py, with \<^verbatim>\<open>other\<close> cut
  to its first 12 bytes \<^verbatim>\<open>b'stateidentif'\<close>.
\<close>

lemma encode_example:
  "encode_layout_wcc []
     \<lparr>mirrors = [\<lparr>mirror_id = ''mirror1'', data_servers = [
      \<lparr>device_id = ''0123456789abcdef'',
       state_id = \<lparr>seqid = 1, other = [115, 116, 97, 116, 101, 105, 100, 101, 110, 116, 105, 102]\<rparr>,
       file_handles = [''handle1''],
       attributes = [''size'' \<mapsto> 1024, ''mtime'' \<mapsto> 1638360000]\<rparr>]\<rparr>]\<rparr> =
   Inr [0, 0, 0, 1, 0, 0, 0, 1, 0, 0, 0, 7, 109, 105, 114, 114, 111, 114, 49,
     0, 0, 0, 0, 1, 0, 0, 0, 2, 48, 49, 50, 51, 52, 53, 54, 55, 56, 57, 97,
     98, 99, 100, 101, 102, 0, 0, 0, 3, 0, 0, 0, 1, 115, 116, 97, 116, 101,
     105, 100, 101, 110, 116, 105, 102, 0, 0, 0, 1, 0, 0, 0, 4, 0, 0, 0, 7,
     104, 97, 110, 100, 108, 101, 49, 0, 0, 0, 0, 5, 0, 0, 0, 3, 0, 0, 0, 0,
     0, 0, 4, 0, 0, 0, 0, 0, 97, 167, 99, 192]"
  by (simp add: enc_defs)

text \<open>
  Claim C1 as stated (\<open>decode(encode(d)) == d\<close> for every well-formed descriptor) fails as
  soon as the descriptor has a data server. The descriptor of the example in
  XDR-Encode-Decode.py, with \<^verbatim>\<open>other\<close> cut to its first 12 bytes \<^verbatim>\<open>b'stateidentif'\<close>, comes
  back with the device id \<^verbatim>\<open>'0123456789abcdef'\<close> as \<^verbatim>\<open>'30313233343536373839616263646566'\<close> and
  the file handle \<^verbatim>\<open>'handle1'\<close> as \<^verbatim>\<open>'68616e646c6531'\<close>: the encoder writes the UTF-8 bytes of
  the two texts, the decoder returns \<^verbatim>\<open>.hex()\<close> of the bytes it reads.
\<close>

theorem decode_encode_example_differs:
  "decode_encode
     \<lparr>mirrors = [\<lparr>mirror_id = ''mirror1'', data_servers = [
      \<lparr>device_id = ''0123456789abcdef'',
       state_id = \<lparr>seqid = 1, other = [115, 116, 97, 116, 101, 105, 100, 101, 110, 116, 105, 102]\<rparr>,
       file_handles = [''handle1''],
       attributes = [''size'' \<mapsto> 1024, ''mtime'' \<mapsto> 1638360000]\<rparr>]\<rparr>]\<rparr> =
   Inr \<lparr>mirrors = [\<lparr>mirror_id = ''mirror1'', data_servers = [
      \<lparr>device_id = ''30313233343536373839616263646566'',
       state_id = \<lparr>seqid = 1, other = [115, 116, 97, 116, 101, 105, 100, 101, 110, 116, 105, 102]\<rparr>,
       file_handles = [''68616e646c6531''],
       attributes = [''size'' \<mapsto> 1024, ''mtime'' \<mapsto> 1638360000]\<rparr>]\<rparr>]\<rparr> \<and>
   decode_encode
     \<lparr>mirrors = [\<lparr>mirror_id = ''mirror1'', data_servers = [
      \<lparr>device_id = ''0123456789abcdef'',
       state_id = \<lparr>seqid = 1, other = [115, 116, 97, 116, 101, 105, 100, 101, 110, 116, 105, 102]\<rparr>,
       file_handles = [''handle1''],
       attributes = [''size'' \<mapsto> 1024, ''mtime'' \<mapsto> 1638360000]\<rparr>]\<rparr>]\<rparr> \<noteq>
   Inr \<lparr>mirrors = [\<lparr>mirror_id = ''mirror1'', data_servers = [
      \<lparr>device_id = ''0123456789abcdef'',
       state_id = \<lparr>seqid = 1, other = [115, 116, 97, 116, 101, 105, 100, 101, 110, 116, 105, 102]\<rparr>,
       file_handles = [''handle1''],
       attributes = [''size'' \<mapsto> 1024, ''mtime'' \<mapsto> 1638360000]\<rparr>]\<rparr>]\<rparr>"
proof -
  have "decode_encode
     \<lparr>mirrors = [\<lparr>mirror_id = ''mirror1'', data_servers = [
      \<lparr>device_id = ''0123456789abcdef'',
       state_id = \<lparr>seqid = 1, other = [115, 116, 97, 116, 101, 105, 100, 101, 110, 116, 105, 102]\<rparr>,
       file_handles = [''handle1''],
       attributes = [''size'' \<mapsto> 1024, ''mtime'' \<mapsto> 1638360000]\<rparr>]\<rparr>]\<rparr> =
   Inr \<lparr>mirrors = [\<lparr>mirror_id = ''mirror1'', data_servers = [
      \<lparr>device_id = ''30313233343536373839616263646566'',
       state_id = \<lparr>seqid = 1, other = [115, 116, 97, 116, 101, 105, 100, 101, 110, 116, 105, 102]\<rparr>,
       file_handles = [''68616e646c6531''],
       attributes = [''size'' \<mapsto> 1024, ''mtime'' \<mapsto> 1638360000]\<rparr>]\<rparr>]\<rparr>"
    unfolding decode_encode_def encode_example
    by (simp add: dec_defs decode_each_numeral decode_each_1 char_of_def bit_0)
  then show ?thesis by simp
qed

text \<open>
  Claim C1, amended: for every well-formed descriptor \<open>d\<close>, encoding succeeds and
  \<open>decode(encode(d))\<close> is \<open>d\<close> with each \<^verbatim>\<open>device_id\<close> and each file handle replaced by the
  hexadecimal text of its encoded bytes, everything else (mirror ids, \<^verbatim>\<open>seqid\<close>, \<^verbatim>\<open>other\<close>,
  the attributes, the order and number of the entries) unchanged. So the round trip gives
  back \<open>d\<close> itself exactly when no mirror of \<open>d\<close> has a data server, which covers the
  descriptor with zero mirrors.
\<close>

theorem decode_encode_round_trip:
  assumes "well_formed d"
  shows "decode_encode d = Inr (hex_layout d) \<and>
         (decode_encode d = Inr d \<longleftrightarrow> (\<forall>m \<in> set (mirrors d). data_servers m = []))"
proof -
  from encode_layout_wcc_succeeds [OF assms] obtain b where b: "encode_layout_wcc [] d = Inr b"
    by auto
  have "decode_encode d = Inr (hex_layout d)"
    unfolding decode_encode_def b using decode_layout_wcc_encoded [OF b assms] by simp
  then show ?thesis using hex_layout_eq [OF assms] by auto
qed


theorem decode_encode_round_trip_witness:
  "well_formed
     \<lparr>mirrors = [\<lparr>mirror_id = ''mirror1'', data_servers = [
      \<lparr>device_id = ''0123456789abcdef'',
       state_id = \<lparr>seqid = 1, other = [115, 116, 97, 116, 101, 105, 100, 101, 110, 116, 105, 102]\<rparr>,
       file_handles = [''handle1''],
       attributes = [''size'' \<mapsto> 1024, ''mtime'' \<mapsto> 1638360000]\<rparr>]\<rparr>]\<rparr> \<and>
   decode_encode
     \<lparr>mirrors = [\<lparr>mirror_id = ''mirror1'', data_servers = [
      \<lparr>device_id = ''0123456789abcdef'',
       state_id = \<lparr>seqid = 1, other = [115, 116, 97, 116, 101, 105, 100, 101, 110, 116, 105, 102]\<rparr>,
       file_handles = [''handle1''],
       attributes = [''size'' \<mapsto> 1024, ''mtime'' \<mapsto> 1638360000]\<rparr>]\<rparr>]\<rparr> =
   Inr \<lparr>mirrors = [\<lparr>mirror_id = ''mirror1'', data_servers = [
      \<lparr>device_id = ''30313233343536373839616263646566'',
       state_id = \<lparr>seqid = 1, other = [115, 116, 97, 116, 101, 105, 100, 101, 110, 116, 105, 102]\<rparr>,
       file_handles = [''68616e646c6531''],
       attributes = [''size'' \<mapsto> 1024, ''mtime'' \<mapsto> 1638360000]\<rparr>]\<rparr>]\<rparr> \<and>
   well_formed \<lparr>mirrors = []\<rparr> \<and>
   decode_encode \<lparr>mirrors = []\<rparr> = Inr \<lparr>mirrors = []\<rparr>"
proof -
  let ?d = "\<lparr>mirrors = [\<lparr>mirror_id = ''mirror1'', data_servers = [
      \<lparr>device_id = ''0123456789abcdef'',
       state_id = \<lparr>seqid = 1, other = [115, 116, 97, 116, 101, 105, 100, 101, 110, 116, 105, 102]\<rparr>,
       file_handles = [''handle1''],
       attributes = [''size'' \<mapsto> 1024, ''mtime'' \<mapsto> 1638360000]\<rparr>]\<rparr>]\<rparr>"
  have wf: "well_formed ?d"
    by (auto simp: well_formed_def wf_mirror_def wf_data_server_def wf_attributes_def
        utf8_encode_def)
  have h: "hex_layout ?d =
     \<lparr>mirrors = [\<lparr>mirror_id = ''mirror1'', data_servers = [
      \<lparr>device_id = ''30313233343536373839616263646566'',
       state_id = \<lparr>seqid = 1, other = [115, 116, 97, 116, 101, 105, 100, 101, 110, 116, 105, 102]\<rparr>,
       file_handles = [''68616e646c6531''],
       attributes = [''size'' \<mapsto> 1024, ''mtime'' \<mapsto> 1638360000]\<rparr>]\<rparr>]\<rparr>"
    by (simp add: hex_layout_def hex_mirror_def hex_data_server_def hex_def hex_digit_def
        utf8_encode_def)
  have wf0: "well_formed \<lparr>mirrors = []\<rparr>" by (simp add: well_formed_def)
  from decode_encode_round_trip [OF wf] decode_encode_round_trip [OF wf0] wf wf0
  show ?thesis unfolding h by (simp add: hex_layout_def)
qed

end
